theory Spec2Isabelle
  imports Complex_Main
begin

section \<open>Characters and strings\<close>

text \<open>
  A Python \<open>str\<close> is modelled as a \<open>string\<close>; each \<open>char\<close> stands for one code point
  below 256. The character classes are the ones Python's \<open>re\<close> module and the \<open>str\<close>
  methods use on that range: \<open>\s\<close> and \<open>str.isspace\<close> agree, \<open>\w\<close> is alphanumeric
  or underscore, \<open>\d\<close> is a decimal digit. Python floats are modelled as exact reals.
\<close>

definition whitespace :: string where
  \<comment> \<open>tab, line feed, vertical tab, form feed, carriage return, the four separators
     0x1C to 0x1F, space, next line (0x85) and no-break space (0xA0)\<close>
  "whitespace = [CHR 0x09, CHR 0x0A, CHR 0x0B, CHR 0x0C, CHR 0x0D, CHR 0x1C, CHR 0x1D, CHR 0x1E,
                 CHR 0x1F, CHR 0x20, CHR 0x85, CHR 0xA0]"

definition uppercase :: string where
  "uppercase = ''ABCDEFGHIJKLMNOPQRSTUVWXYZ''"

definition lowercase :: string where
  "lowercase = ''abcdefghijklmnopqrstuvwxyz''"

definition is_space :: "char \<Rightarrow> bool" where
  "is_space c = (c \<in> set whitespace)"

definition is_digit :: "char \<Rightarrow> bool" where
  "is_digit c = (c \<in> set ''0123456789'')"

definition is_upper :: "char \<Rightarrow> bool" where
  "is_upper c = (c \<in> set uppercase)"

definition is_lower :: "char \<Rightarrow> bool" where
  "is_lower c = (c \<in> set lowercase)"

definition is_alpha :: "char \<Rightarrow> bool" where
  "is_alpha c = (is_upper c \<or> is_lower c)"

definition is_word :: "char \<Rightarrow> bool" where
  \<comment> \<open>above 127 (\<open>digit7\<close> is the top bit) the alphanumeric code points are 170, 178,
     179, 181, 185, 186, 188 to 190, 192 to 214, 216 to 246 and 248 to 255\<close>
  "is_word c =
     (if digit7 c then
        (let n = (of_char c :: nat) in
         n = 170 \<or> n = 178 \<or> n = 179 \<or> n = 181 \<or> n = 185 \<or> n = 186 \<or>
         (188 \<le> n \<and> n \<le> 190) \<or> (192 \<le> n \<and> n \<le> 214) \<or>
         (216 \<le> n \<and> n \<le> 246) \<or> 248 \<le> n)
      else is_digit c \<or> is_alpha c \<or> c = CHR ''_'')"

definition to_lower :: "char \<Rightarrow> char" where
  \<comment> \<open>case folding of the ASCII letters, the only letters the patterns contain\<close>
  "to_lower c = (case map_of (zip uppercase lowercase) c of Some l \<Rightarrow> l | None \<Rightarrow> c)"

definition to_upper :: "char \<Rightarrow> char" where
  "to_upper c = (case map_of (zip lowercase uppercase) c of Some u \<Rightarrow> u | None \<Rightarrow> c)"

definition newline :: char where
  "newline = CHR 0x0A"

definition any_char :: "char \<Rightarrow> bool" where
  \<comment> \<open>the regex dot: everything but a newline\<close>
  "any_char c = (c \<noteq> newline)"

definition one_of :: "string \<Rightarrow> char \<Rightarrow> bool" where
  \<comment> \<open>a bracket class that lists its members\<close>
  "one_of cs c = (c \<in> set cs)"

definition none_of :: "string \<Rightarrow> char \<Rightarrow> bool" where
  \<comment> \<open>a negated bracket class\<close>
  "none_of cs c = (c \<notin> set cs)"

definition strip :: "string \<Rightarrow> string" where
  \<comment> \<open>\<open>str.strip()\<close>\<close>
  "strip s = rev (dropWhile is_space (rev (dropWhile is_space s)))"

definition blank :: "string \<Rightarrow> bool" where
  \<comment> \<open>\<open>not s.strip()\<close>\<close>
  "blank s = (strip s = [])"

fun split_nl :: "string \<Rightarrow> string list" where
  \<comment> \<open>\<open>s.split('\n')\<close>\<close>
  "split_nl [] = [[]]"
| "split_nl (c # cs) =
     (if c = newline then [] # split_nl cs
      else (case split_nl cs of l # ls \<Rightarrow> (c # l) # ls | [] \<Rightarrow> [[c]]))"

fun join_nl :: "string list \<Rightarrow> string" where
  \<comment> \<open>\<open>'\n'.join(xs)\<close>\<close>
  "join_nl [] = []"
| "join_nl [x] = x"
| "join_nl (x # y # ys) = x @ newline # join_nl (y # ys)"

function split_ws :: "string \<Rightarrow> string list" where
  \<comment> \<open>\<open>s.split()\<close>: the maximal runs of non-whitespace characters\<close>
  "split_ws s =
     (case dropWhile is_space s of
        [] \<Rightarrow> []
      | c # cs \<Rightarrow> takeWhile (\<lambda>x. \<not> is_space x) (c # cs)
                 # split_ws (dropWhile (\<lambda>x. \<not> is_space x) cs))"
  by pat_completeness auto
termination
proof (relation "measure length")
  show "wf (measure length)" by simp
next
  fix s :: string and c cs
  assume d: "dropWhile is_space s = c # cs"
  have "length (dropWhile (\<lambda>x. \<not> is_space x) cs) \<le> length cs"
    by (rule length_dropWhile_le)
  moreover have "length (c # cs) \<le> length s"
    using length_dropWhile_le [of is_space s] d by simp
  ultimately show "(dropWhile (\<lambda>x. \<not> is_space x) cs, s) \<in> measure length"
    by simp
qed

declare split_ws.simps [simp del]

section \<open>Regular expressions\<close>

text \<open>
  The fragment of Python's \<open>re\<close> syntax that the pattern tables use. Repetition is
  only ever applied to a single-character class in the source, so \<open>Star\<close> (greedy
  \<open>X*\<close>) and \<open>Lazy\<close> (\<open>X*?\<close>) take a class. \<open>Bol\<close> is \<open>^\<close>, \<open>Eol\<close> is \<open>$\<close>,
  \<open>Wordb\<close> is \<open>\b\<close>.
\<close>

datatype regex =
    Eps
  | Lit char
  | Cls "char \<Rightarrow> bool"
  | Seq regex regex
  | Alt regex regex
  | Star "char \<Rightarrow> bool"
  | Lazy "char \<Rightarrow> bool"
  | Bol
  | Eol
  | Wordb

definition seqs :: "regex list \<Rightarrow> regex" where
  "seqs rs = foldr Seq rs Eps"

definition alts :: "regex list \<Rightarrow> regex" where
  \<comment> \<open>\<open>a|b|c\<close>, tried from the left\<close>
  "alts rs = (case rs of [] \<Rightarrow> Eps | _ \<Rightarrow> foldr Alt (butlast rs) (last rs))"

definition str :: "string \<Rightarrow> regex" where
  \<comment> \<open>a run of literal characters\<close>
  "str cs = foldr (\<lambda>c r. Seq (Lit c) r) cs Eps"

definition words :: "string list \<Rightarrow> regex" where
  \<comment> \<open>\<open>(?:w1|w2|...)\<close>\<close>
  "words ws = alts (map str ws)"

definition Opt :: "regex \<Rightarrow> regex" where
  \<comment> \<open>greedy \<open>X?\<close>\<close>
  "Opt r = Alt r Eps"

definition Plus :: "(char \<Rightarrow> bool) \<Rightarrow> regex" where
  \<comment> \<open>greedy \<open>X+\<close>\<close>
  "Plus P = Seq (Cls P) (Star P)"

definition lit_ok :: "bool \<Rightarrow> char \<Rightarrow> char \<Rightarrow> bool" where
  \<comment> \<open>does the pattern character \<open>c\<close> match \<open>x\<close>; \<open>ic\<close> is \<open>re.IGNORECASE\<close>\<close>
  "lit_ok ic c x = (if ic then to_lower c = to_lower x else c = x)"

definition cls_ok :: "bool \<Rightarrow> (char \<Rightarrow> bool) \<Rightarrow> char \<Rightarrow> bool" where
  "cls_ok ic P x = (P x \<or> (ic \<and> (P (to_lower x) \<or> P (to_upper x))))"

text \<open>
  A position in the subject is the character before it (\<open>None\<close> at the start) and the
  rest of the subject. The matcher returns every position a match can end at, in the
  order the backtracking engine tries them; the head is the match Python reports.
\<close>

type_synonym pos = "char option \<times> string"

fun star_greedy :: "(char \<Rightarrow> bool) \<Rightarrow> char option \<Rightarrow> string \<Rightarrow> pos list" where
  "star_greedy P prev [] = [(prev, [])]"
| "star_greedy P prev (x # xs) =
     (if P x then star_greedy P (Some x) xs @ [(prev, x # xs)] else [(prev, x # xs)])"

fun star_lazy :: "(char \<Rightarrow> bool) \<Rightarrow> char option \<Rightarrow> string \<Rightarrow> pos list" where
  "star_lazy P prev [] = [(prev, [])]"
| "star_lazy P prev (x # xs) =
     (prev, x # xs) # (if P x then star_lazy P (Some x) xs else [])"

definition word_before :: "char option \<Rightarrow> bool" where
  "word_before prev = (case prev of None \<Rightarrow> False | Some c \<Rightarrow> is_word c)"

definition word_after :: "string \<Rightarrow> bool" where
  "word_after s = (case s of [] \<Rightarrow> False | c # _ \<Rightarrow> is_word c)"

fun rmatch :: "bool \<Rightarrow> bool \<Rightarrow> regex \<Rightarrow> char option \<Rightarrow> string \<Rightarrow> pos list" where
  \<comment> \<open>\<open>ic\<close> is \<open>re.IGNORECASE\<close>, \<open>ml\<close> is \<open>re.MULTILINE\<close>\<close>
  "rmatch ic ml Eps prev s = [(prev, s)]"
| "rmatch ic ml (Lit c) prev s =
     (case s of [] \<Rightarrow> [] | x # xs \<Rightarrow> if lit_ok ic c x then [(Some x, xs)] else [])"
| "rmatch ic ml (Cls P) prev s =
     (case s of [] \<Rightarrow> [] | x # xs \<Rightarrow> if cls_ok ic P x then [(Some x, xs)] else [])"
| "rmatch ic ml (Seq a b) prev s =
     concat (map (\<lambda>(p, t). rmatch ic ml b p t) (rmatch ic ml a prev s))"
| "rmatch ic ml (Alt a b) prev s = rmatch ic ml a prev s @ rmatch ic ml b prev s"
| "rmatch ic ml (Star P) prev s = star_greedy (cls_ok ic P) prev s"
| "rmatch ic ml (Lazy P) prev s = star_lazy (cls_ok ic P) prev s"
| "rmatch ic ml Bol prev s =
     (if prev = None \<or> (ml \<and> prev = Some newline) then [(prev, s)] else [])"
| "rmatch ic ml Eol prev s =
     (if s = [] \<or> (if ml then hd s = newline else s = [newline]) then [(prev, s)] else [])"
| "rmatch ic ml Wordb prev s =
     (if word_before prev \<noteq> word_after s then [(prev, s)] else [])"

definition re_match :: "bool \<Rightarrow> bool \<Rightarrow> regex \<Rightarrow> string \<Rightarrow> bool" where
  \<comment> \<open>\<open>re.match(p, s, flags)\<close> as a truth value\<close>
  "re_match ic ml r s = (rmatch ic ml r None s \<noteq> [])"

fun search_from :: "bool \<Rightarrow> bool \<Rightarrow> regex \<Rightarrow> char option \<Rightarrow> string \<Rightarrow> bool" where
  "search_from ic ml r prev [] = (rmatch ic ml r prev [] \<noteq> [])"
| "search_from ic ml r prev (x # xs) =
     (rmatch ic ml r prev (x # xs) \<noteq> [] \<or> search_from ic ml r (Some x) xs)"

definition re_search :: "bool \<Rightarrow> bool \<Rightarrow> regex \<Rightarrow> string \<Rightarrow> bool" where
  \<comment> \<open>\<open>re.search(p, s, flags)\<close> as a truth value\<close>
  "re_search ic ml r s = search_from ic ml r None s"

text \<open>
  \<open>re.sub\<close> and \<open>re.findall\<close> scan for non-overlapping matches from the left. Every
  pattern the source hands to them consumes at least one character; an empty match is
  skipped here (replacing it by the empty string changes nothing).
\<close>

definition first_match :: "bool \<Rightarrow> bool \<Rightarrow> regex \<Rightarrow> char option \<Rightarrow> string \<Rightarrow> pos option" where
  "first_match ic ml r prev s =
     (case rmatch ic ml r prev s of
        [] \<Rightarrow> None
      | (p, t) # _ \<Rightarrow> if length t < length s then Some (p, t) else None)"

function sub_from :: "bool \<Rightarrow> bool \<Rightarrow> regex \<Rightarrow> char option \<Rightarrow> string \<Rightarrow> string" where
  "sub_from ic ml r prev s =
     (case first_match ic ml r prev s of
        Some (p, t) \<Rightarrow> sub_from ic ml r p t
      | None \<Rightarrow> (case s of [] \<Rightarrow> [] | x # xs \<Rightarrow> x # sub_from ic ml r (Some x) xs))"
  by pat_completeness auto
termination
  by (relation "measure (\<lambda>(ic, ml, r, prev, s). length s)")
     (auto simp: first_match_def split: list.splits if_splits)

declare sub_from.simps [simp del]

definition re_sub :: "bool \<Rightarrow> bool \<Rightarrow> regex \<Rightarrow> string \<Rightarrow> string" where
  \<comment> \<open>\<open>re.sub(p, '', s, flags=...)\<close>\<close>
  "re_sub ic ml r s = sub_from ic ml r None s"

function count_from :: "bool \<Rightarrow> bool \<Rightarrow> regex \<Rightarrow> char option \<Rightarrow> string \<Rightarrow> nat" where
  "count_from ic ml r prev s =
     (case first_match ic ml r prev s of
        Some (p, t) \<Rightarrow> Suc (count_from ic ml r p t)
      | None \<Rightarrow> (case s of [] \<Rightarrow> 0 | x # xs \<Rightarrow> count_from ic ml r (Some x) xs))"
  by pat_completeness auto
termination
  by (relation "measure (\<lambda>(ic, ml, r, prev, s). length s)")
     (auto simp: first_match_def split: list.splits if_splits)

declare count_from.simps [simp del]

definition re_count :: "bool \<Rightarrow> bool \<Rightarrow> regex \<Rightarrow> string \<Rightarrow> nat" where
  \<comment> \<open>\<open>len(re.findall(p, s, flags))\<close>\<close>
  "re_count ic ml r s = count_from ic ml r None s"

section \<open>The simple analyzer\<close>

datatype role = AI | Student

text \<open>
  The readability library \<open>textstat\<close> is not part of the repository: its
  \<open>flesch_kincaid_grade\<close> is a parameter \<open>grade\<close> of the model, \<open>None\<close> when
  the call raises.
\<close>

type_synonym grader = "string \<Rightarrow> real option"

record TextSegment =
  seg_text :: string
  speaker :: role
  confidence :: real
  word_count :: int
  line_start :: int
  line_end :: int

record TranscriptAnalysis =
  filename :: string
  segments :: "TextSegment list"
  ai_words :: int
  student_words :: int
  total_words :: int
  student_ratio :: real
  confidence_score :: real
  quality_flags :: "string list"

definition backslash :: char where
  "backslash = CHR 0x5C"

definition apostrophe :: char where
  "apostrophe = CHR 0x27"

definition student_markers :: "regex list" where
  "student_markers =
    [seqs [Bol, Star is_space, str ''Student'', Star (none_of '':''), Lit CHR '':'', Star is_space],
     seqs [Bol, Star is_space, str ''A:'', Star is_space],
     seqs [Bol, Star is_space, str ''Answer:'', Star is_space],
     seqs [Bol, Star is_space, str ''Me:'', Star is_space],
     seqs [Bol, Star is_space, str ''User:'', Star is_space],
     seqs [Bol, Star is_space, str ''Student_Entity_'', Cls is_upper, Lit CHR '':'', Star is_space]]"

definition ai_markers :: "regex list" where
  "ai_markers =
    [seqs [Bol, Star is_space, words [''Prof'', ''Professor'', ''Dr''], Opt (Lit CHR ''.''),
           Star is_space, Star (none_of '':''), Lit CHR '':'', Star is_space],
     seqs [Bol, Star is_space, words [''AI'', ''Assistant'', ''Claude'', ''GPT'', ''Bot''],
           Lit CHR '':'', Star is_space],
     seqs [Bol, Star is_space, Plus is_word, Plus is_space,
           words [''Specialist'', ''Assistant'', ''Instructor''], Lit CHR '':'', Star is_space],
     seqs [Bol, Star is_space, str ''Claud-ius:'', Star is_space],
     seqs [Bol, Star is_space, str ''Molecular Gastronomy Assistant:'', Star is_space],
     seqs [Bol, Star is_space, str ''Brain-Computer Interface Specialist:'', Star is_space]]"

definition latex_rx :: regex where
  \<comment> \<open>the source writes \<open>r'\\[.*?\\]'\<close>: a backslash, then one character of the
     bracket class holding dot, star, question mark and backslash\<close>
  "latex_rx = Seq (Lit backslash) (Cls (one_of [CHR ''.'', CHR ''*'', CHR ''?'', backslash]))"

definition ai_content_patterns :: "regex list" where
  "ai_content_patterns =
    [seqs [str (''Let'' @ [apostrophe] @ ''s''), Plus is_space,
           words [''explore'', ''examine'', ''calculate'']],
     seqs [str ''Your'', Plus is_space, words [''task'', ''mission''], Lit CHR '':'', Star is_space],
     seqs [str ''Step'', Plus is_space, Plus is_digit, Cls (one_of '':.'')],
     seqs [Bol, Star is_space, str ''**'', Plus (none_of ''*''), str ''**''],
     seqs [str ''=== Page '', Plus is_digit, str '' ===''],
     seqs [str ''Consider'', Plus is_space, words [''the'', ''this'']],
     seqs [str ''Now'', Plus is_space,
           words [''let'' @ [apostrophe] @ ''s'', ''we'' @ [apostrophe] @ ''ll'']],
     seqs [words [''Excellent'', ''Perfect'', ''Good''], Lit CHR ''!'', Star is_space,
           words [''You'', ''Your'']],
     latex_rx]"

definition student_content_patterns :: "regex list" where
  "student_content_patterns =
    [seqs [Bol, words [''yes'', ''no'', ''ok'', ''okay'', ''sure'', ''maybe'']],
     words [''confused'', ''don'' @ [apostrophe] @ ''t understand'', ''not sure''],
     seqs [Lit CHR ''?'', Eol],
     words [''can you'', ''could you'', ''what if'', ''why'', ''how''],
     seqs [Bol, words [''wait'', ''but'', ''so'', ''um'', ''uh'']],
     seqs [Bol, Cls is_lower]]"

definition alpha_word_rx :: regex where
  \<comment> \<open>\<open>\b[a-zA-Z]+\b\<close>\<close>
  "alpha_word_rx = seqs [Wordb, Plus is_alpha, Wordb]"

definition math_rx :: regex where
  \<comment> \<open>\<open>[\\$]\s*[a-zA-Z_]+|[=<>]+|\d+\s*[+\-*/]\s*\d+\<close>\<close>
  "math_rx = alts
    [seqs [Cls (one_of [backslash, CHR ''$'']), Star is_space,
           Plus (\<lambda>c. is_alpha c \<or> c = CHR ''_'')],
     Plus (one_of ''=<>''),
     seqs [Plus is_digit, Star is_space, Cls (one_of ''+-*/''), Star is_space, Plus is_digit]]"

definition count_words :: "string \<Rightarrow> int" where
  "count_words text =
    (let clean_text = re_sub False False (Plus (one_of ''*'')) text;
         clean_text = re_sub False False (Plus (one_of ''='')) clean_text;
         clean_text = re_sub False False latex_rx clean_text
     in int (re_count False False alpha_word_rx clean_text))"

definition any_search :: "regex list \<Rightarrow> string \<Rightarrow> bool" where
  \<comment> \<open>does some pattern of the table match somewhere, under IGNORECASE and MULTILINE\<close>
  "any_search ps text = list_ex (\<lambda>p. re_search True True p text) ps"

definition add_hits :: "regex list \<Rightarrow> real \<Rightarrow> string \<Rightarrow> real \<Rightarrow> real" where
  \<comment> \<open>the loop \<open>for pattern in ps: if re.search(...): score += w\<close>\<close>
  "add_hits ps w text score =
     fold (\<lambda>p sc. if re_search True True p text then sc + w else sc) ps score"

definition sigmoid :: "real \<Rightarrow> real" where
  \<comment> \<open>\<open>1 / (1 + np.exp(-x))\<close>\<close>
  [code del]: "sigmoid x = 1 / (1 + exp (- x))"

definition decide :: "real \<Rightarrow> role \<times> real" where
  \<comment> \<open>the last lines of the content classifiers\<close>
  "decide ai_score =
     (let ai_prob = sigmoid ai_score
      in if ai_prob > 0.5 then (AI, ai_prob) else (Student, 1 - ai_prob))"

definition content_score :: "grader \<Rightarrow> string \<Rightarrow> real" where
  "content_score grade text =
    (let ai_score = 0;
         ai_score = add_hits ai_content_patterns 0.2 text ai_score;
         ai_score = add_hits student_content_patterns (- 0.25) text ai_score;
         wc = count_words text;
         ai_score = (if wc > 100 then ai_score + 0.1
                     else if wc < 20 then ai_score - 0.1 else ai_score);
         ai_score = (case grade text of
                       None \<Rightarrow> ai_score
                     | Some reading_level \<Rightarrow>
                         if reading_level > 12 then ai_score + 0.05
                         else if reading_level < 8 then ai_score - 0.05 else ai_score);
         ai_score = (if re_search False False math_rx text then ai_score + 0.1 else ai_score);
         question_count = int (re_count False False (Lit CHR ''?'') text);
         ai_score = (if question_count > 0 \<and> wc > 0 \<and> real_of_int question_count / real_of_int wc > 0.1
                     then ai_score - 0.1 else ai_score)
     in ai_score)"

definition classify_speaker :: "grader \<Rightarrow> string \<Rightarrow> role \<times> real" where
  "classify_speaker grade text =
    (if blank text then (AI, 0.5)
     else if any_search student_markers text then (Student, 0.95)
     else if any_search ai_markers text then (AI, 0.95)
     else decide (content_score grade text))"

fun first_marker :: "regex list \<Rightarrow> string \<Rightarrow> string option" where
  \<comment> \<open>the first pattern that matches at the start of the line, and the line with the
     match removed and stripped\<close>
  "first_marker [] line = None"
| "first_marker (p # ps) line =
     (if re_match True False p line then Some (strip (re_sub True False p line))
      else first_marker ps line)"

definition detect :: "regex list \<Rightarrow> regex list \<Rightarrow> string \<Rightarrow> role option \<times> string" where
  \<comment> \<open>student patterns are tried first, AI patterns only when none matched\<close>
  "detect smarkers amarkers line =
    (case first_marker smarkers line of
       Some clean_line \<Rightarrow> (Some Student, clean_line)
     | None \<Rightarrow>
        (case first_marker amarkers line of
           Some clean_line \<Rightarrow> (Some AI, clean_line)
         | None \<Rightarrow> (None, line)))"

text \<open>
  The local variables of the segmentation loop. The other two analyzers run the same
  loop over their own segment type and call \<open>current_chunk\<close> \<open>current_segment\<close>;
  the original analyzer calls \<open>start_line\<close> \<open>current_start\<close>.
\<close>

record 'seg seg_state =
  segs :: "'seg list"  \<comment> \<open>the list \<open>segments\<close> being built\<close>
  current_chunk :: "string list"
  current_speaker :: "role option"
  start_line :: int

definition flush :: "grader \<Rightarrow> TextSegment list \<Rightarrow> string list \<Rightarrow> role option \<Rightarrow> int \<Rightarrow> int
    \<Rightarrow> TextSegment list" where
  \<comment> \<open>the body of \<open>if current_chunk:\<close>, at a speaker change and at the end\<close>
  "flush grade sgs chunk spk first_line last_line =
    (if chunk = [] then sgs
     else
       let chunk_text = join_nl chunk;
           (spkr, conf) = (case spk of Some r \<Rightarrow> (r, 0.9)
                           | None \<Rightarrow> classify_speaker grade chunk_text);
           wc = count_words chunk_text
       in if wc > 0
          then sgs @ [\<lparr>seg_text = chunk_text, speaker = spkr, confidence = conf,
                       word_count = wc, line_start = first_line, line_end = last_line\<rparr>]
          else sgs)"

definition seg_step :: "grader \<Rightarrow> nat \<times> string \<Rightarrow> TextSegment seg_state \<Rightarrow> TextSegment seg_state" where
  "seg_step grade il st =
    (let i = int (fst il); line = snd il in
     if blank line then
       (if current_chunk st \<noteq> [] then st\<lparr>current_chunk := current_chunk st @ [line]\<rparr> else st)
     else
       let (detected_speaker, clean_line) = detect student_markers ai_markers line in
       if detected_speaker \<noteq> None \<and> detected_speaker \<noteq> current_speaker st then
         \<lparr>segs = flush grade (segs st) (current_chunk st) (current_speaker st) (start_line st) (i - 1),
          current_chunk = (if clean_line \<noteq> [] then [clean_line] else []),
          current_speaker = detected_speaker,
          start_line = i\<rparr>
       else st\<lparr>current_chunk := current_chunk st @ [line]\<rparr>)"

definition seg_init :: "'seg seg_state" where
  "seg_init = \<lparr>segs = [], current_chunk = [], current_speaker = None, start_line = 0\<rparr>"

definition segment_transcript :: "grader \<Rightarrow> string \<Rightarrow> TextSegment list" where
  "segment_transcript grade content =
    (let lines = split_nl content;
         st = fold (seg_step grade) (enumerate 0 lines) seg_init;
         sgs = flush grade (segs st) (current_chunk st) (current_speaker st) (start_line st)
                 (int (length lines) - 1)
     in if sgs = [] then
          (let (spkr, conf) = classify_speaker grade content;
               wc = count_words content
           in if wc > 0
              then [\<lparr>seg_text = content, speaker = spkr, confidence = conf, word_count = wc,
                     line_start = 0, line_end = int (length lines) - 1\<rparr>]
              else [])
        else sgs)"

definition words_of :: "role \<Rightarrow> TextSegment list \<Rightarrow> int" where
  \<comment> \<open>\<open>sum(seg.word_count for seg in segments if seg.speaker == r)\<close>\<close>
  "words_of r sgs = sum_list (map word_count (filter (\<lambda>seg. speaker seg = r) sgs))"

definition mean :: "real list \<Rightarrow> real" where
  \<comment> \<open>\<open>np.mean\<close> of a non-empty list\<close>
  "mean xs = sum_list xs / real (length xs)"

definition analyze_transcript :: "grader \<Rightarrow> string \<Rightarrow> string + string \<Rightarrow> TranscriptAnalysis" where
  \<comment> \<open>\<open>name\<close> is \<open>Path(file_path).name\<close>; the read gives \<open>Inr content\<close>, or
     \<open>Inl e\<close> with the text of the exception\<close>
  "analyze_transcript grade name rd =
    (case rd of
       Inl e \<Rightarrow>
         \<lparr>filename = name, segments = [], ai_words = 0, student_words = 0, total_words = 0,
          student_ratio = 0, confidence_score = 0, quality_flags = [''Read error: '' @ e]\<rparr>
     | Inr content \<Rightarrow>
         if blank content then
           \<lparr>filename = name, segments = [], ai_words = 0, student_words = 0, total_words = 0,
            student_ratio = 0, confidence_score = 0, quality_flags = [''Empty file'']\<rparr>
         else
           let sgs = segment_transcript grade content;
               aw = words_of AI sgs;
               sw = words_of Student sgs;
               tw = aw + sw;
               ratio = (if tw > 0 then real_of_int sw / real_of_int tw else 0);
               avg_confidence = (if sgs \<noteq> [] then mean (map confidence sgs) else 0);
               flags = (if avg_confidence < 0.6 then [''Low confidence''] else [])
                     @ (if tw < 100 then [''Very short''] else [])
                     @ (if length sgs < 2 then [''Few segments''] else [])
           in \<lparr>filename = name, segments = sgs, ai_words = aw, student_words = sw,
               total_words = tw, student_ratio = ratio, confidence_score = avg_confidence,
               quality_flags = flags\<rparr>)"

definition analyze_batch :: "grader \<Rightarrow> (string \<times> (string + string)) list \<Rightarrow> TranscriptAnalysis list" where
  \<comment> \<open>the loop of \<open>main\<close>: one call per file, every result appended\<close>
  "analyze_batch grade files = map (\<lambda>(name, rd). analyze_transcript grade name rd) files"

section \<open>The advanced analyzer (v2)\<close>

definition explicit_student_markers :: "regex list" where
  "explicit_student_markers =
    [seqs [Bol, Star is_space, words [''Student'', ''student''],
           Opt (seqs [Star is_space, Star is_word]), Lit CHR '':'', Star is_space],
     seqs [Bol, Star is_space, str ''A:'', Star is_space],
     seqs [Bol, Star is_space, str ''Answer:'', Star is_space],
     seqs [Bol, Star is_space, str ''Response:'', Star is_space],
     seqs [Bol, Star is_space, str ''Me:'', Star is_space],
     seqs [Bol, Star is_space, str ''User:'', Star is_space],
     seqs [Bol, Star is_space, Cls is_upper, Star is_lower, Opt (Lit CHR ''_''),
           words [''Student'', ''User'', ''Entity''], Opt (Lit CHR ''_''), Opt (Cls is_upper),
           Lit CHR '':'', Star is_space]]"

definition explicit_ai_markers :: "regex list" where
  "explicit_ai_markers =
    [seqs [Bol, Star is_space, words [''AI'', ''Assistant'', ''Claude'', ''GPT'', ''Bot''],
           Lit CHR '':'', Star is_space],
     seqs [Bol, Star is_space, words [''Prof'', ''Professor'', ''Dr'', ''Teacher''],
           Opt (Lit CHR ''.''), Star is_space, Star is_word, Lit CHR '':'', Star is_space],
     seqs [Bol, Star is_space, Plus is_word, Plus is_space,
           words [''Specialist'', ''Assistant'', ''Instructor'', ''Teacher''], Lit CHR '':'',
           Star is_space],
     seqs [Bol, Star is_space, words [''Claud-ius'', ''DeepSeek'', ''ChatGPT''], Lit CHR '':'',
           Star is_space],
     seqs [Bol, Star is_space, Lit CHR ''*'', Star (none_of ''*''), Lit CHR ''*'', Lit CHR '':'',
           Star is_space]]"

definition ai_indicators :: "regex list" where
  "ai_indicators =
    [seqs [str (''Let'' @ [apostrophe] @ ''s''), Plus is_space,
           words [''explore'', ''examine'', ''calculate'', ''derive'', ''analyze'']],
     seqs [Opt (seqs [str ''Your'', Plus is_space]),
           words [''task'', ''mission'', ''assignment'', ''challenge''],
           Opt (seqs [Plus is_space, str ''is'']), Lit CHR '':'', Star is_space],
     seqs [str ''Step'', Plus is_space, Plus is_digit, Cls (one_of '':.'')],
     seqs [Bol, Star is_space, str ''**'', Plus (none_of ''*''), str ''**''],
     seqs [str ''=== Page '', Plus is_digit, str '' ===''],
     latex_rx,
     seqs [str ''Consider'', Plus is_space, words [''the'', ''this'', ''a'']],
     seqs [str ''Now'', Plus is_space,
           words [''let'' @ [apostrophe] @ ''s'', ''we'' @ [apostrophe] @ ''ll'',
                  ''you'' @ [apostrophe] @ ''ll'']],
     seqs [words [''Excellent'', ''Perfect'', ''Good'', ''Great''], Lit CHR ''!'', Star is_space,
           words [''You'', ''Your'']]]"

definition student_indicators :: "regex list" where
  "student_indicators =
    [seqs [Bol, words [''yes'', ''no'', ''ok'', ''okay'', ''sure'', ''maybe'', ''i think'',
                       ''i don'' @ [apostrophe] @ ''t'']],
     seqs [Wordb, words [''confused'', ''don'' @ [apostrophe] @ ''t understand'', ''not sure'',
                         ''help''], Wordb],
     seqs [Lit CHR ''?'', Eol],
     seqs [Wordb, words [''can you'', ''could you'', ''what if'', ''why'', ''how''], Wordb],
     seqs [Bol, words [''wait'', ''but'', ''so'', ''um'', ''uh'', ''actually'']]]"

definition formal_rx :: regex where
  "formal_rx = seqs [Wordb, words [''furthermore'', ''moreover'', ''however'', ''therefore'',
                                   ''consequently'', ''thus'', ''hence''], Wordb]"

definition instruction_rx :: regex where
  "instruction_rx = seqs [Wordb, words [''calculate'', ''derive'', ''analyze'', ''examine'',
                                        ''consider'', ''determine''], Wordb]"

definition uncertainty_rx :: regex where
  "uncertainty_rx = seqs [Wordb, words [''maybe'', ''perhaps'', ''i think'', ''not sure'',
                                        ''confused'', ''don'' @ [apostrophe] @ ''t understand''],
                          Wordb]"

definition casual_rx :: regex where
  "casual_rx = seqs [Wordb, words [''yeah'', ''ok'', ''wow'', ''cool'', ''awesome'', ''wait'',
                                   ''um'', ''uh''], Wordb]"

text \<open>
  The feature dictionary is either empty (blank text) or holds every key, so it is an
  optional record. Only the entries that the classifier, the segment's word count or the
  aggregator read are kept; the character count, average word length, reading ease,
  code and equation indicators, capitalisation ratio and punctuation counts are
  computed by the source and stored for display only.
\<close>

record features =
  f_word_count :: int
  f_sentence_count :: int
  f_flesch_kincaid_grade :: real
  f_question_count :: int
  f_question_ratio :: real
  f_has_math :: real
  f_formality_score :: real
  f_instruction_score :: real
  f_uncertainty_score :: real
  f_casual_score :: real

definition extract_features :: "grader \<Rightarrow> string \<Rightarrow> features option" where
  \<comment> \<open>\<open>grade text = None\<close> stands for the \<open>except\<close> branch around the two
     \<open>textstat\<close> calls, which stores the default grade 8\<close>
  "extract_features grade text =
    (if blank text then None
     else
       let wc = int (length (split_ws text));
           sc = max 1 (int (re_count False False (Plus (one_of ''.!?'')) text));
           fk = (case grade text of Some g \<Rightarrow> g | None \<Rightarrow> 8);
           qc = int (re_count False False (Lit CHR ''?'') text);
           per_word = (\<lambda>n. real n / real_of_int (max 1 wc))
       in Some \<lparr>f_word_count = wc,
                f_sentence_count = sc,
                f_flesch_kincaid_grade = fk,
                f_question_count = qc,
                f_question_ratio = real_of_int qc / real_of_int (max 1 sc),
                f_has_math = (if re_search False False math_rx text then 1 else 0),
                f_formality_score = per_word (re_count True False formal_rx text),
                f_instruction_score = per_word (re_count True False instruction_rx text),
                f_uncertainty_score = per_word (re_count True False uncertainty_rx text),
                f_casual_score = per_word (re_count True False casual_rx text)\<rparr>)"

definition feature_score :: "features option \<Rightarrow> real \<Rightarrow> real" where
  \<comment> \<open>the block under \<open># Feature-based scoring\<close>; every test \<open>'k' in features\<close>
     fails on the empty dictionary\<close>
  "feature_score fo ai_score =
    (case fo of
       None \<Rightarrow> ai_score
     | Some f \<Rightarrow>
        (let ai_score = (if f_word_count f > 100 then ai_score + 0.1
                         else if f_word_count f < 20 then ai_score - 0.1 else ai_score);
             ai_score = (if f_instruction_score f > 0.02 then ai_score + 0.15 else ai_score);
             ai_score = (if f_uncertainty_score f > 0.02 then ai_score - 0.15 else ai_score);
             ai_score = (if f_casual_score f > 0.02 then ai_score - 0.15 else ai_score);
             ai_score = (if f_has_math f \<noteq> 0 then ai_score + 0.1 else ai_score);
             ai_score = (if f_formality_score f > 0.01 then ai_score + 0.1 else ai_score);
             ai_score = (if f_question_ratio f > 0.3 then ai_score - 0.1 else ai_score);
             ai_score = (if f_flesch_kincaid_grade f > 12 then ai_score + 0.05
                         else if f_flesch_kincaid_grade f < 8 then ai_score - 0.05
                         else ai_score)
         in ai_score))"

definition content_score_v2 :: "string \<Rightarrow> features option \<Rightarrow> real" where
  "content_score_v2 text fo =
    (let ai_score = 0;
         ai_score = add_hits ai_indicators 0.15 text ai_score;
         ai_score = add_hits student_indicators (- 0.20) text ai_score
     in feature_score fo ai_score)"

definition calculate_speaker_probability :: "string \<Rightarrow> features option \<Rightarrow> role \<times> real" where
  "calculate_speaker_probability text fo =
    (if any_search explicit_ai_markers text then (AI, 0.95)
     else if any_search explicit_student_markers text then (Student, 0.95)
     else decide (content_score_v2 text fo))"

text \<open>
  Of the fifteen fields of the v2 segment, the ones that only copy a feature for display
  (sentence count, average sentence length, reading level, technical score, question
  count, the two indicators and the formality score) are left to \<open>features_v2\<close>.
\<close>

record TextSegment_v2 =
  text_v2 :: string
  speaker_prediction :: role
  confidence_v2 :: real
  word_count_v2 :: int
  start_line_v2 :: int
  end_line_v2 :: int
  features_v2 :: "features option"

record TranscriptAnalysis_v2 =
  filename_v2 :: string
  segments_v2 :: "TextSegment_v2 list"
  ai_words_v2 :: int
  student_words_v2 :: int
  total_words_v2 :: int
  student_ratio_v2 :: real
  confidence_score_v2 :: real
  parsing_method :: string
  quality_flags_v2 :: "string list"

definition feature_word_count :: "features option \<Rightarrow> int" where
  \<comment> \<open>\<open>features.get('word_count', 0)\<close>\<close>
  "feature_word_count fo = (case fo of None \<Rightarrow> 0 | Some f \<Rightarrow> f_word_count f)"

definition create_segment :: "grader \<Rightarrow> string list \<Rightarrow> role option \<Rightarrow> int \<Rightarrow> int \<Rightarrow> TextSegment_v2" where
  "create_segment grade lines spk first_line last_line =
    (let text = join_nl lines;
         fo = extract_features grade text;
         (predicted_speaker, conf) =
            (case spk of Some r \<Rightarrow> (r, 0.9)
             | None \<Rightarrow> calculate_speaker_probability text fo)
     in \<lparr>text_v2 = text, speaker_prediction = predicted_speaker, confidence_v2 = conf,
         word_count_v2 = feature_word_count fo, start_line_v2 = first_line,
         end_line_v2 = last_line, features_v2 = fo\<rparr>)"

definition marker_step :: "grader \<Rightarrow> nat \<times> string \<Rightarrow> TextSegment_v2 seg_state \<Rightarrow> TextSegment_v2 seg_state" where
  "marker_step grade il st =
    (let i = int (fst il); line = snd il in
     if blank line then
       (if current_chunk st \<noteq> [] then st\<lparr>current_chunk := current_chunk st @ [line]\<rparr> else st)
     else
       let (detected_speaker, clean_text) =
             detect explicit_student_markers explicit_ai_markers line in
       if detected_speaker \<noteq> None \<and> detected_speaker \<noteq> current_speaker st then
         \<lparr>segs = (if current_chunk st \<noteq> []
                  then segs st @ [create_segment grade (current_chunk st) (current_speaker st)
                                    (start_line st) (i - 1)]
                  else segs st),
          current_chunk = (if clean_text \<noteq> [] then [clean_text] else []),
          current_speaker = detected_speaker,
          start_line = i\<rparr>
       else st\<lparr>current_chunk := current_chunk st @ [line]\<rparr>)"

definition segment_by_markers :: "grader \<Rightarrow> string list \<Rightarrow> TextSegment_v2 list" where
  "segment_by_markers grade lines =
    (let st = fold (marker_step grade) (enumerate 0 lines) seg_init
     in if current_chunk st \<noteq> []
        then segs st @ [create_segment grade (current_chunk st) (current_speaker st)
                          (start_line st) (int (length lines) - 1)]
        else segs st)"

definition chunk_step :: "string \<Rightarrow> string list \<times> string list \<Rightarrow> string list \<times> string list" where
  \<comment> \<open>the state is \<open>(chunks, current_chunk)\<close>\<close>
  "chunk_step line st =
    (let (chunks, cur) = st in
     if \<not> blank line then (chunks, cur @ [line])
     else if cur \<noteq> [] \<and> length cur > 2 then (chunks @ [join_nl cur], [])
     else (chunks, cur))"

definition content_chunks :: "string list \<Rightarrow> string list" where
  "content_chunks lines =
    (let (chunks, cur) = fold chunk_step lines ([], [])
     in if cur \<noteq> [] then chunks @ [join_nl cur] else chunks)"

definition content_segment :: "grader \<Rightarrow> nat \<times> string \<Rightarrow> TextSegment_v2" where
  "content_segment grade ic =
    (let i = int (fst ic); chunk = snd ic;
         fo = extract_features grade chunk;
         (spkr, conf) = calculate_speaker_probability chunk fo
     in \<lparr>text_v2 = chunk, speaker_prediction = spkr, confidence_v2 = conf,
         word_count_v2 = feature_word_count fo, start_line_v2 = i * 10,
         end_line_v2 = (i + 1) * 10, features_v2 = fo\<rparr>)"

definition segment_by_content :: "grader \<Rightarrow> string list \<Rightarrow> TextSegment_v2 list" where
  "segment_by_content grade lines = map (content_segment grade) (enumerate 0 (content_chunks lines))"

definition smart_segment_transcript :: "grader \<Rightarrow> string \<Rightarrow> TextSegment_v2 list" where
  "smart_segment_transcript grade content =
    (let lines = split_nl content;
         explicit_segments = segment_by_markers grade lines
     in if explicit_segments \<noteq> [] then explicit_segments
        else segment_by_content grade lines)"

definition words_of_v2 :: "role \<Rightarrow> TextSegment_v2 list \<Rightarrow> int" where
  "words_of_v2 r sgs =
     sum_list (map word_count_v2 (filter (\<lambda>seg. speaker_prediction seg = r) sgs))"

definition method_rx :: regex where
  \<comment> \<open>\<open>^\s*(?:Student|AI|Prof|Assistant):\<close>\<close>
  "method_rx = seqs [Bol, Star is_space, words [''Student'', ''AI'', ''Prof'', ''Assistant''],
                     Lit CHR '':'']"

definition analyze_transcript_v2 :: "grader \<Rightarrow> string \<Rightarrow> string + string \<Rightarrow> TranscriptAnalysis_v2" where
  "analyze_transcript_v2 grade name rd =
    (case rd of
       Inl e \<Rightarrow>
         \<lparr>filename_v2 = name, segments_v2 = [], ai_words_v2 = 0, student_words_v2 = 0,
          total_words_v2 = 0, student_ratio_v2 = 0, confidence_score_v2 = 0,
          parsing_method = ''error'', quality_flags_v2 = [''Read error: '' @ e]\<rparr>
     | Inr content \<Rightarrow>
         if blank content then
           \<lparr>filename_v2 = name, segments_v2 = [], ai_words_v2 = 0, student_words_v2 = 0,
            total_words_v2 = 0, student_ratio_v2 = 0, confidence_score_v2 = 0,
            parsing_method = ''empty'', quality_flags_v2 = [''Empty file'']\<rparr>
         else
           let sgs = smart_segment_transcript grade content;
               aw = words_of_v2 AI sgs;
               sw = words_of_v2 Student sgs;
               tw = aw + sw;
               ratio = (if tw > 0 then real_of_int sw / real_of_int tw else 0);
               avg_confidence = (if sgs \<noteq> [] then mean (map confidence_v2 sgs) else 0);
               flags = (if avg_confidence < 0.6 then [''Low confidence predictions''] else [])
                     @ (if tw < 100 then [''Very short transcript''] else [])
                     @ (if length sgs < 3 then [''Few speaker segments detected''] else []);
               has_explicit_markers = list_ex (\<lambda>seg. re_search True True method_rx (text_v2 seg)) sgs
           in \<lparr>filename_v2 = name, segments_v2 = sgs, ai_words_v2 = aw, student_words_v2 = sw,
               total_words_v2 = tw, student_ratio_v2 = ratio, confidence_score_v2 = avg_confidence,
               parsing_method = (if has_explicit_markers then ''explicit_markers''
                                 else ''content_analysis''),
               quality_flags_v2 = flags\<rparr>)"

definition run_cli :: "grader \<Rightarrow> (string \<times> (string + string)) list \<Rightarrow> TranscriptAnalysis_v2 list" where
  \<comment> \<open>the analysis loop of \<open>run_cli\<close>\<close>
  "run_cli grade files = map (\<lambda>(name, rd). analyze_transcript_v2 grade name rd) files"

section \<open>The original analyzer\<close>

definition ai_patterns :: "regex list" where
  "ai_patterns =
    [seqs [Bol, Star is_space, Lit CHR ''*'', Plus (none_of ''*''), Lit CHR ''*'', Star is_space, Eol],
     seqs [str ''=== Page '', Plus is_digit, str '' ===''],
     seqs [Bol, Star is_space, str ''**'', Plus (none_of ''*''), str ''**''],
     seqs [Bol, Star is_space, str ''##'', Opt (Lit CHR ''#''), Plus is_space, str ''**''],
     seqs [Bol, Star is_space, str ''Step'', Plus is_space, Plus is_digit, Lit CHR '':''],
     seqs [str ''Your'', Plus is_space, words [''task'', ''response'', ''turn'']],
     seqs [Lit backslash, Lit CHR ''['', Lazy any_char, Lit backslash, Lit CHR '']''],
     seqs [Lit backslash, str ''begin{'', Lazy any_char, Lit CHR ''}''],
     seqs [Bol, Star is_space, Plus is_digit, Lit CHR ''.'', Plus is_space, str ''**''],
     str ''Brain-Computer Interface Specialist'',
     str ''Neural Specialist'',
     str ''Quantum Computing Instructor'']"

definition student_patterns :: "regex list" where
  "student_patterns =
    [seqs [Bol, Star is_space, str ''A:'', Star is_space],
     seqs [Bol, Star is_space, str ''Student:'', Star is_space],
     seqs [Bol, Star is_space, str ''Student_Entity_'', Cls is_upper, Lit CHR '':'', Star is_space],
     seqs [Bol, Star is_space, Cls (one_of ''Ss''), str ''tudent'', Star is_word, Lit CHR '':'',
           Star is_space]]"

definition instructor_patterns :: "regex list" where
  "instructor_patterns =
    [seqs [Bol, Star is_space, str ''Prof.'', Plus is_space, Plus is_word, Lit CHR '':'',
           Star is_space],
     seqs [Bol, Star is_space, Plus is_word, Plus is_space, str ''Assistant:'', Star is_space],
     seqs [Bol, Star is_space, str ''Claud-ius:'', Star is_space],
     seqs [Bol, Star is_space, Cls is_upper, Plus is_lower, Plus is_space, str ''Specialist:'',
           Star is_space]]"

definition noise_patterns :: "regex list" where
  "noise_patterns =
    [seqs [Cls is_upper, Cls is_upper, Cls is_upper, Plus is_upper],
     seqs [Cls (one_of ''#$%&*''), Cls (one_of ''#$%&*''), Plus (one_of ''#$%&*'')],
     seqs [Wordb, Plus is_upper, Plus (one_of ''#$%&*''), Star is_upper, Wordb]]"

definition count_words_orig :: "string \<Rightarrow> int" where
  "count_words_orig text =
    (let clean_text = re_sub False False
           (seqs [Lit backslash, Lit CHR ''['', Lazy any_char, Lit backslash, Lit CHR '']'']) text;
         clean_text = re_sub False False
           (seqs [Lit backslash, Plus is_alpha, Lit CHR ''{'', Star (none_of ''}''), Lit CHR ''}''])
           clean_text;
         clean_text = re_sub False False (Plus (one_of ''*'')) clean_text;
         clean_text = re_sub False False (Plus (one_of ''#'')) clean_text
     in int (re_count False False alpha_word_rx clean_text))"

definition math_rx_orig :: regex where
  \<comment> \<open>\<open>[\\$]\s*[a-zA-Z_]+\s*[\\$=]\<close>\<close>
  "math_rx_orig =
     seqs [Cls (one_of [backslash, CHR ''$'']), Star is_space,
           Plus (\<lambda>c. is_alpha c \<or> c = CHR ''_''), Star is_space,
           Cls (one_of [backslash, CHR ''$'', CHR ''=''])]"

definition instruct_rx_orig :: regex where
  "instruct_rx_orig = seqs [Wordb, words [''calculate'', ''derive'', ''analyze'', ''consider'',
                                          ''examine''], Wordb]"

definition raw_score :: "string \<Rightarrow> real" where
  \<comment> \<open>the value of \<open>score\<close> before the last line of \<open>calculate_ai_probability\<close>\<close>
  "raw_score text =
    (let score = 0.5;
         score = add_hits ai_patterns 0.2 text score;
         score = add_hits instructor_patterns 0.3 text score;
         score = add_hits student_patterns (- 0.4) text score;
         wc = count_words_orig text;
         score = (if wc > 100 then score + 0.1
                  else if wc > 50 then score + 0.05
                  else if wc < 10 then score - 0.1 else score);
         score = (if re_search False False math_rx_orig text then score + 0.15 else score);
         score = (if re_search True False instruct_rx_orig text then score + 0.1 else score);
         score = fold (\<lambda>p sc. if re_search False False p text then sc + 0.05 else sc)
                   noise_patterns score
     in score)"

definition calculate_ai_probability :: "string \<Rightarrow> real" where
  "calculate_ai_probability text = max 0 (min 1 (raw_score text))"

fun clean_loop :: "regex list \<Rightarrow> string \<Rightarrow> string \<Rightarrow> string" where
  \<comment> \<open>\<open>for pattern in ps: clean_text = re.sub(...).strip(); if clean_text != line.strip(): break\<close>;
     the third argument is \<open>clean_text\<close> so far\<close>
  "clean_loop [] line clean_text = clean_text"
| "clean_loop (p # ps) line clean_text =
     (let c = strip (re_sub True False p line)
      in if c \<noteq> strip line then c else clean_loop ps line c)"

definition detect_orig :: "string \<Rightarrow> role option \<times> string" where
  \<comment> \<open>the tables are joined with \<open>|\<close> for the test, then walked for the stripping\<close>
  "detect_orig line =
    (if re_match True False (alts student_patterns) line
       then (Some Student, clean_loop student_patterns line line)
     else if re_match True False (alts instructor_patterns) line
       then (Some AI, clean_loop instructor_patterns line line)
     else (None, line))"

definition flush_orig :: "TextSegment list \<Rightarrow> string list \<Rightarrow> role option \<Rightarrow> int \<Rightarrow> int
    \<Rightarrow> TextSegment list" where
  "flush_orig sgs chunk spk first_line last_line =
    (if chunk = [] then sgs
     else
       let text = join_nl chunk;
           wc = count_words_orig text
       in if wc > 0
          then
            let (spkr, conf) =
                  (case spk of Some r \<Rightarrow> (r, 0.9)
                   | None \<Rightarrow>
                       let ai_prob = calculate_ai_probability text
                       in (if ai_prob > 0.5 then AI else Student, \<bar>ai_prob - 0.5\<bar> * 2))
            in sgs @ [\<lparr>seg_text = text, speaker = spkr, confidence = conf, word_count = wc,
                        line_start = first_line, line_end = last_line\<rparr>]
          else sgs)"

definition seg_step_orig :: "nat \<times> string \<Rightarrow> TextSegment seg_state \<Rightarrow> TextSegment seg_state" where
  "seg_step_orig il st =
    (let i = int (fst il); line = snd il in
     if blank line then
       (if current_chunk st \<noteq> [] then st\<lparr>current_chunk := current_chunk st @ [line]\<rparr> else st)
     else
       let (detected_speaker, clean_text) = detect_orig line in
       if detected_speaker \<noteq> None \<and> detected_speaker \<noteq> current_speaker st then
         \<lparr>segs = flush_orig (segs st) (current_chunk st) (current_speaker st) (start_line st) (i - 1),
          current_chunk = (if clean_text \<noteq> [] then [clean_text] else []),
          current_speaker = detected_speaker,
          start_line = i\<rparr>
       else st\<lparr>current_chunk := current_chunk st @ [line]\<rparr>)"

definition segment_transcript_orig :: "string \<Rightarrow> TextSegment list" where
  "segment_transcript_orig content =
    (let lines = split_nl content;
         st = fold seg_step_orig (enumerate 0 lines) seg_init
     in flush_orig (segs st) (current_chunk st) (current_speaker st) (start_line st)
          (int (length lines) - 1))"

record TranscriptAnalysis_orig =
  filename_orig :: string
  segments_orig :: "TextSegment list"
  ai_words_orig :: int
  student_words_orig :: int
  total_words_orig :: int
  student_ratio_orig :: real
  ai_ratio_orig :: real

definition analyze_transcript_orig :: "string \<Rightarrow> string + string \<Rightarrow> string + TranscriptAnalysis_orig" where
  \<comment> \<open>no handler around the read here: its exception leaves the function\<close>
  "analyze_transcript_orig name rd =
    (case rd of
       Inl e \<Rightarrow> Inl e
     | Inr content \<Rightarrow>
         let sgs = segment_transcript_orig content;
             aw = words_of AI sgs;
             sw = words_of Student sgs;
             tw = aw + sw
         in Inr \<lparr>filename_orig = name, segments_orig = sgs, ai_words_orig = aw,
                 student_words_orig = sw, total_words_orig = tw,
                 student_ratio_orig = (if tw > 0 then real_of_int sw / real_of_int tw else 0),
                 ai_ratio_orig = (if tw > 0 then real_of_int aw / real_of_int tw else 0)\<rparr>)"

section \<open>Sample transcripts\<close>

definition scenario :: string where
  \<comment> \<open>the two-line transcript of the specification's worked scenario\<close>
  "scenario = ''Student: What is 2+2?'' @ [newline] @ ''AI: The answer is 4.''"

definition marker_only :: string where
  \<comment> \<open>a line that is only a marker, then a student line\<close>
  "marker_only = ''AI:'' @ [newline] @ ''Student: hi''"

definition tagged_question :: string where
  \<comment> \<open>an AI marker in front of wording that the content patterns read as a student's\<close>
  "tagged_question = ''AI: um why?''"

definition repeated_marker :: string where
  \<comment> \<open>two student lines in a row, both tagged\<close>
  "repeated_marker = ''Student: hi'' @ [newline] @ ''Student: there''"

definition open_student :: "TextSegment seg_state" where
  \<comment> \<open>the loop variables after the first line of \<open>repeated_marker\<close>\<close>
  "open_student = \<lparr>segs = [], current_chunk = [''hi''], current_speaker = Some Student,
                    start_line = 0\<rparr>"

definition bare_markers :: string where
  \<comment> \<open>four lines that are only markers, in two paragraphs\<close>
  "bare_markers = ''AI:'' @ [newline] @ ''Student:'' @ [newline] @ ''AI:'' @ [newline]
                  @ [newline] @ ''Student:''"

definition no_markers :: string where
  \<comment> \<open>two paragraphs without any marker\<close>
  "no_markers = ''a'' @ [newline] @ ''b'' @ [newline] @ ''c'' @ [newline] @ [newline] @ ''d''"

section \<open>Invariants of the segmentation loops\<close>

text \<open>
  What every emitted segment satisfies, and what the loop variables satisfy after the
  lines before index \<open>i\<close>: the segments so far are well formed, ordered, and end
  before the start of the open chunk; an open chunk started before line \<open>i\<close>. In
  the advanced analyzer an open chunk moreover starts with a line that is not blank.
\<close>

definition seg_ok :: "TextSegment \<Rightarrow> bool" where
  "seg_ok seg \<longleftrightarrow> 0 < word_count seg \<and> 1 / 2 \<le> confidence seg \<and> confidence seg < 1
     \<and> 0 \<le> line_start seg \<and> line_start seg \<le> line_end seg"

definition inv_seg :: "nat \<Rightarrow> TextSegment seg_state \<Rightarrow> bool" where
  "inv_seg i st \<longleftrightarrow>
     list_all (\<lambda>seg. seg_ok seg \<and> line_end seg < start_line st) (segs st)
     \<and> sorted_wrt (\<lambda>a b. line_end a < line_start b) (segs st)
     \<and> 0 \<le> start_line st \<and> start_line st \<le> int i
     \<and> (current_chunk st = [] \<or> start_line st < int i)"

definition ranges_ok :: "int \<Rightarrow> TextSegment list \<Rightarrow> bool" where
  "ranges_ok n sgs \<longleftrightarrow>
     list_all (\<lambda>seg. seg_ok seg \<and> line_end seg < n) sgs
     \<and> sorted_wrt (\<lambda>a b. line_end a < line_start b) sgs"

definition seg_ok_v2 :: "TextSegment_v2 \<Rightarrow> bool" where
  "seg_ok_v2 seg \<longleftrightarrow> 0 < word_count_v2 seg \<and> 1 / 2 \<le> confidence_v2 seg \<and> confidence_v2 seg < 1"

definition inv_marker :: "nat \<Rightarrow> TextSegment_v2 seg_state \<Rightarrow> bool" where
  "inv_marker i st \<longleftrightarrow>
     list_all (\<lambda>seg. seg_ok_v2 seg \<and> 0 \<le> start_line_v2 seg \<and> start_line_v2 seg \<le> end_line_v2 seg
                 \<and> end_line_v2 seg < start_line st) (segs st)
     \<and> sorted_wrt (\<lambda>a b. end_line_v2 a < start_line_v2 b) (segs st)
     \<and> 0 \<le> start_line st \<and> start_line st \<le> int i
     \<and> (current_chunk st = [] \<or> (start_line st < int i \<and> \<not> blank (hd (current_chunk st))))"

definition ranges_ok_v2 :: "int \<Rightarrow> TextSegment_v2 list \<Rightarrow> bool" where
  "ranges_ok_v2 n sgs \<longleftrightarrow>
     list_all (\<lambda>seg. seg_ok_v2 seg \<and> 0 \<le> start_line_v2 seg \<and> start_line_v2 seg \<le> end_line_v2 seg
                 \<and> end_line_v2 seg < n) sgs
     \<and> sorted_wrt (\<lambda>a b. end_line_v2 a < start_line_v2 b) sgs"

section \<open>Auxiliary notions for the patterns and for the content fallback\<close>

text \<open>
  A syntactic test on a pattern: every match contains a character that is not
  whitespace.
\<close>

fun ink :: "regex \<Rightarrow> bool" where
  "ink (Lit c) = (\<not> is_space c \<and> \<not> is_space (to_lower c))"
| "ink (Seq a b) = (ink a \<or> ink b)"
| "ink (Alt a b) = (ink a \<and> ink b)"
| "ink r = False"

text \<open>
  The grouping of lines that \<open>content_chunks\<close> joins: the same loop, keeping each chunk
  as a list of lines.
\<close>

definition group_step :: "string \<Rightarrow> string list list \<times> string list \<Rightarrow> string list list \<times> string list" where
  "group_step line st =
    (let (groups, cur) = st in
     if \<not> blank line then (groups, cur @ [line])
     else if cur \<noteq> [] \<and> length cur > 2 then (groups @ [cur], [])
     else (groups, cur))"

definition chunk_groups :: "string list \<Rightarrow> string list list" where
  "chunk_groups lines =
    (let (groups, cur) = fold group_step lines ([], [])
     in if cur \<noteq> [] then groups @ [cur] else groups)"

text \<open>
  Two kinds of line for the marker pass of the advanced analyzer.
\<close>

definition bare :: "string \<Rightarrow> bool" where
  \<comment> \<open>a blank line, or a line that is a marker with nothing after it\<close>
  "bare line =
     (blank line \<or>
      (case detect explicit_student_markers explicit_ai_markers line of
         (Some r, clean_text) \<Rightarrow> clean_text = []
       | (None, clean_text) \<Rightarrow> False))"

definition unmarked :: "string \<Rightarrow> bool" where
  \<comment> \<open>no marker pattern of the advanced analyzer matches at the start of the line\<close>
  "unmarked line = (fst (detect explicit_student_markers explicit_ai_markers line) = None)"

text \<open>
  How a returned segment got its role: from the speaker of its chunk, with the fixed
  confidence, or from the classifier applied to its text.
\<close>

definition labelled :: "grader \<Rightarrow> TextSegment \<Rightarrow> bool" where
  \<comment> \<open>the two ways a segment of the simple analyzer gets its role\<close>
  "labelled grade seg \<longleftrightarrow>
     confidence seg = 0.9
     \<or> (speaker seg, confidence seg) = classify_speaker grade (seg_text seg)"

definition labelled_v2 :: "grader \<Rightarrow> TextSegment_v2 \<Rightarrow> bool" where
  "labelled_v2 grade seg \<longleftrightarrow>
     confidence_v2 seg = 0.9
     \<or> (speaker_prediction seg, confidence_v2 seg)
          = calculate_speaker_probability (text_v2 seg) (extract_features grade (text_v2 seg))"

section \<open>Properties of the string helpers\<close>

lemma strip_Nil_iff: "strip s = [] \<longleftrightarrow> (\<forall>c\<in>set s. is_space c)"
proof
  assume "strip s = []"
  then have "\<forall>x\<in>set (dropWhile is_space s). is_space x"
    by (simp add: strip_def)
  then have "dropWhile is_space s = []"
    by (metis hd_dropWhile list.set_sel(1))
  then show "\<forall>c\<in>set s. is_space c"
    by simp
next
  assume "\<forall>c\<in>set s. is_space c"
  then show "strip s = []"
    by (auto simp: strip_def dest: set_dropWhileD)
qed

lemma blank_iff: "blank s \<longleftrightarrow> (\<forall>c\<in>set s. is_space c)"
  by (simp add: blank_def strip_Nil_iff)

lemma strip_not_blank: "strip s \<noteq> [] \<Longrightarrow> \<not> blank (strip s)"
proof -
  assume ne: "strip s \<noteq> []"
  let ?d = "dropWhile is_space (rev (dropWhile is_space s))"
  from ne have d: "?d \<noteq> []" by (simp add: strip_def)
  then have "\<not> is_space (hd ?d)" by (rule hd_dropWhile)
  moreover from d have "hd ?d \<in> set (strip s)" by (simp add: strip_def)
  ultimately show ?thesis by (auto simp: blank_iff)
qed

lemma set_join_nl_hd: "set x \<subseteq> set (join_nl (x # xs))"
  by (cases xs) auto

lemma join_nl_not_blank: "\<not> blank x \<Longrightarrow> \<not> blank (join_nl (x # xs))"
  using set_join_nl_hd [of x xs] by (auto simp: blank_iff)

lemma split_ws_not_Nil: "\<not> blank s \<Longrightarrow> split_ws s \<noteq> []"
proof -
  assume "\<not> blank s"
  then have "dropWhile is_space s \<noteq> []"
    by (simp add: blank_iff)
  then show ?thesis
    by (subst split_ws.simps) (simp split: list.splits)
qed

lemma split_nl_not_Nil: "split_nl s \<noteq> []"
  by (induction s) (auto split: list.splits)

section \<open>The simple segmenter keeps its invariant\<close>

lemma fold_enumerate_inv:
  assumes "I k st"
    and "\<And>i line s. I i s \<Longrightarrow> I (Suc i) (f (i, line) s)"
  shows "I (k + length ls) (fold f (enumerate k ls) st)"
  using assms(1)
proof (induction ls arbitrary: k st)
  case Nil
  then show ?case by simp
next
  case (Cons l ls)
  from Cons.prems have "I (Suc k) (f (k, l) st)" by (rule assms(2))
  then have "I (Suc k + length ls) (fold f (enumerate (Suc k) ls) (f (k, l) st))"
    by (rule Cons.IH)
  then show ?case by simp
qed

lemma sigmoid_bounds: "0 < sigmoid x \<and> sigmoid x < 1"
proof -
  have "0 < exp (- x)" by simp
  then show ?thesis by (simp add: sigmoid_def add_pos_pos)
qed

lemma sigmoid_half: "sigmoid x > 1 / 2 \<longleftrightarrow> x > 0"
proof -
  have e: "0 < exp (- x)" by simp
  have "sigmoid x > 1 / 2 \<longleftrightarrow> 1 + exp (- x) < 2"
  proof -
    have "0 < 1 + exp (- x)" by (simp add: add_pos_pos)
    then show ?thesis by (simp add: sigmoid_def pos_less_divide_eq)
  qed
  also have "\<dots> \<longleftrightarrow> exp (- x) < exp 0" by simp
  also have "\<dots> \<longleftrightarrow> x > 0" by (simp only: exp_less_cancel_iff) simp
  finally show ?thesis .
qed

lemma decide_eq: "decide s = (if s > 0 then (AI, sigmoid s) else (Student, 1 - sigmoid s))"
  using sigmoid_half [of s] by (simp add: decide_def Let_def)

lemma decide_conf: "snd (decide s) = max (sigmoid s) (1 - sigmoid s)"
  using sigmoid_half [of s] by (auto simp: decide_def Let_def max_def)

lemma decide_bounds: "1 / 2 \<le> snd (decide s) \<and> snd (decide s) < 1"
  using sigmoid_bounds [of s] by (auto simp: decide_conf max_def)

lemma classify_speaker_bounds:
  "1 / 2 \<le> snd (classify_speaker grade text) \<and> snd (classify_speaker grade text) < 1"
  using decide_bounds [of "content_score grade text"] by (simp add: classify_speaker_def)

lemma count_words_nonneg: "0 \<le> count_words text"
  by (simp add: count_words_def Let_def)

lemma flush_cases:
  "flush grade sgs chunk spk a b = sgs \<or>
   (\<exists>seg. flush grade sgs chunk spk a b = sgs @ [seg] \<and> chunk \<noteq> []
      \<and> seg_text seg = join_nl chunk \<and> word_count seg = count_words (join_nl chunk)
      \<and> 0 < word_count seg \<and> line_start seg = a \<and> line_end seg = b
      \<and> (speaker seg, confidence seg) =
           (case spk of Some r \<Rightarrow> (r, 9 / 10) | None \<Rightarrow> classify_speaker grade (join_nl chunk)))"
  by (auto simp: flush_def Let_def split: prod.splits option.splits)

lemma flush_seg_ok:
  assumes "flush grade sgs chunk spk a b = sgs @ [seg]" and "0 \<le> a" and "a \<le> b"
  shows "seg_ok seg"
proof -
  from flush_cases [of grade sgs chunk spk a b] assms(1)
  have f: "0 < word_count seg" "line_start seg = a" "line_end seg = b"
    "(speaker seg, confidence seg) =
       (case spk of Some r \<Rightarrow> (r, 9 / 10) | None \<Rightarrow> classify_speaker grade (join_nl chunk))"
    by auto
  have "1 / 2 \<le> confidence seg \<and> confidence seg < 1"
  proof (cases spk)
    case None
    with f(4) have "confidence seg = snd (classify_speaker grade (join_nl chunk))"
      by (metis option.simps(4) snd_conv)
    then show ?thesis using classify_speaker_bounds by simp
  next
    case (Some r)
    with f(4) show ?thesis by simp
  qed
  with f assms(2,3) show ?thesis by (simp add: seg_ok_def)
qed

lemma inv_seg_flush:
  assumes "inv_seg i st" and "start_line st \<le> e" and "e < n"
  shows "list_all (\<lambda>seg. seg_ok seg \<and> line_end seg < n)
           (flush grade (segs st) (current_chunk st) (current_speaker st) (start_line st) e)
       \<and> sorted_wrt (\<lambda>a b. line_end a < line_start b)
           (flush grade (segs st) (current_chunk st) (current_speaker st) (start_line st) e)"
proof -
  let ?f = "flush grade (segs st) (current_chunk st) (current_speaker st) (start_line st) e"
  from assms have old: "list_all (\<lambda>seg. seg_ok seg \<and> line_end seg < n) (segs st)"
    by (auto simp: inv_seg_def list_all_iff)
  from assms(1) have srt: "sorted_wrt (\<lambda>a b. line_end a < line_start b) (segs st)"
    by (simp add: inv_seg_def)
  from flush_cases [of grade "segs st" "current_chunk st" "current_speaker st" "start_line st" e]
  show ?thesis
  proof
    assume "?f = segs st"
    with old srt show ?thesis by simp
  next
    assume "\<exists>seg. ?f = segs st @ [seg] \<and> current_chunk st \<noteq> []
      \<and> seg_text seg = join_nl (current_chunk st)
      \<and> word_count seg = count_words (join_nl (current_chunk st))
      \<and> 0 < word_count seg \<and> line_start seg = start_line st \<and> line_end seg = e
      \<and> (speaker seg, confidence seg) =
           (case current_speaker st of Some r \<Rightarrow> (r, 9 / 10)
            | None \<Rightarrow> classify_speaker grade (join_nl (current_chunk st)))"
    then obtain seg where s: "?f = segs st @ [seg]" "line_start seg = start_line st"
      "line_end seg = e" by blast
    from assms(1) have "0 \<le> start_line st" by (simp add: inv_seg_def)
    with s(1) have "seg_ok seg" using assms(2) by (rule flush_seg_ok)
    moreover from assms(1) s(2)
    have "\<forall>x\<in>set (segs st). line_end x < line_start seg"
      by (simp add: inv_seg_def list_all_iff)
    ultimately show ?thesis
      using old srt s assms(3) by (simp add: sorted_wrt_append)
  qed
qed

lemma inv_seg_step: "inv_seg i st \<Longrightarrow> inv_seg (Suc i) (seg_step grade (i, line) st)"
proof -
  assume inv: "inv_seg i st"
  obtain d c where dc: "detect student_markers ai_markers line = (d, c)"
    by (cases "detect student_markers ai_markers line")
  show ?thesis
  proof (cases "\<not> blank line \<and> d \<noteq> None \<and> d \<noteq> current_speaker st")
    case False
    then have "seg_step grade (i, line) st = st
      \<or> seg_step grade (i, line) st = st\<lparr>current_chunk := current_chunk st @ [line]\<rparr>"
      using dc by (auto simp: seg_step_def Let_def)
    with inv show ?thesis by (auto simp: inv_seg_def)
  next
    case True
    have le: "start_line st \<le> int i - 1 \<or> current_chunk st = []"
      using inv by (auto simp: inv_seg_def)
    let ?f = "flush grade (segs st) (current_chunk st) (current_speaker st) (start_line st) (int i - 1)"
    have fl: "list_all (\<lambda>seg. seg_ok seg \<and> line_end seg < int i) ?f
       \<and> sorted_wrt (\<lambda>a b. line_end a < line_start b) ?f"
    proof (cases "current_chunk st = []")
      case True
      then have "?f = segs st" by (simp add: flush_def)
      with inv show ?thesis by (auto simp: inv_seg_def list_all_iff)
    next
      case False
      with le have "start_line st \<le> int i - 1" by simp
      with inv show ?thesis by (rule inv_seg_flush) simp
    qed
    from True dc have "seg_step grade (i, line) st =
      \<lparr>segs = ?f, current_chunk = (if c \<noteq> [] then [c] else []), current_speaker = d,
       start_line = int i\<rparr>"
      by (simp add: seg_step_def Let_def)
    with fl show ?thesis by (simp add: inv_seg_def)
  qed
qed

lemma inv_seg_init: "inv_seg 0 seg_init"
  by (simp add: inv_seg_def seg_init_def)

lemma inv_seg_fold:
  "inv_seg (length ls) (fold (seg_step grade) (enumerate 0 ls) seg_init)"
  using fold_enumerate_inv [of inv_seg 0 seg_init "seg_step grade" ls]
    inv_seg_init inv_seg_step by simp

lemma segment_transcript_ok:
  "ranges_ok (int (length (split_nl content))) (segment_transcript grade content)"
proof -
  let ?ls = "split_nl content"
  let ?st = "fold (seg_step grade) (enumerate 0 ?ls) seg_init"
  let ?n = "int (length ?ls)"
  let ?f = "flush grade (segs ?st) (current_chunk ?st) (current_speaker ?st) (start_line ?st) (?n - 1)"
  have inv: "inv_seg (length ?ls) ?st" by (rule inv_seg_fold)
  have npos: "0 < ?n" using split_nl_not_Nil [of content] by simp
  have fl: "ranges_ok ?n ?f"
  proof (cases "current_chunk ?st = []")
    case True
    then have "?f = segs ?st" by (simp add: flush_def)
    with inv show ?thesis by (auto simp: inv_seg_def list_all_iff ranges_ok_def)
  next
    case False
    with inv have "start_line ?st \<le> ?n - 1" by (auto simp: inv_seg_def)
    with inv have "list_all (\<lambda>seg. seg_ok seg \<and> line_end seg < ?n) ?f
       \<and> sorted_wrt (\<lambda>a b. line_end a < line_start b) ?f"
      by (rule inv_seg_flush) simp
    then show ?thesis by (simp add: ranges_ok_def)
  qed
  show ?thesis
  proof (cases "?f = []")
    case False
    with fl show ?thesis by (simp add: segment_transcript_def Let_def)
  next
    case True
    obtain r c where rc: "classify_speaker grade content = (r, c)"
      by (cases "classify_speaker grade content")
    with classify_speaker_bounds [of grade content] have "1 / 2 \<le> c \<and> c < 1" by simp
    with True rc npos show ?thesis
      by (simp add: segment_transcript_def Let_def ranges_ok_def seg_ok_def)
  qed
qed

section \<open>Matches of the marker and content patterns are never blank\<close>

lemma space_to_lower: "is_space x \<Longrightarrow> to_lower x = x"
proof -
  assume "is_space x"
  then have "x \<notin> set uppercase"
    by (auto simp: is_space_def whitespace_def uppercase_def)
  moreover have "length uppercase = length lowercase"
    by (simp add: uppercase_def lowercase_def)
  ultimately have "map_of (zip uppercase lowercase) x = None"
    by (simp add: map_of_zip_is_None)
  then show ?thesis by (simp add: to_lower_def)
qed

lemma lit_ok_ink:
  "lit_ok ic c x \<Longrightarrow> \<not> is_space c \<Longrightarrow> \<not> is_space (to_lower c) \<Longrightarrow> \<not> is_space x"
  using space_to_lower [of x] by (auto simp: lit_ok_def split: if_splits)

lemma star_greedy_suffix: "(p', t) \<in> set (star_greedy P p s) \<Longrightarrow> \<exists>m. s = m @ t"
proof (induction s arbitrary: p)
  case Nil
  then show ?case by simp
next
  case (Cons x xs)
  show ?case
  proof (cases "(p', t) = (p, x # xs)")
    case True
    then show ?thesis by simp
  next
    case False
    with Cons.prems have "(p', t) \<in> set (star_greedy P (Some x) xs)"
      by (auto split: if_splits)
    then obtain m where "xs = m @ t" using Cons.IH by blast
    then have "x # xs = (x # m) @ t" by simp
    then show ?thesis by blast
  qed
qed

lemma star_lazy_suffix: "(p', t) \<in> set (star_lazy P p s) \<Longrightarrow> \<exists>m. s = m @ t"
proof (induction s arbitrary: p)
  case Nil
  then show ?case by simp
next
  case (Cons x xs)
  show ?case
  proof (cases "(p', t) = (p, x # xs)")
    case True
    then show ?thesis by simp
  next
    case False
    with Cons.prems have "(p', t) \<in> set (star_lazy P (Some x) xs)"
      by (auto split: if_splits)
    then obtain m where "xs = m @ t" using Cons.IH by blast
    then have "x # xs = (x # m) @ t" by simp
    then show ?thesis by blast
  qed
qed

lemma rmatch_consumes:
  "(p', t) \<in> set (rmatch ic ml r p s)
     \<Longrightarrow> \<exists>m. s = m @ t \<and> (ink r \<longrightarrow> (\<exists>x\<in>set m. \<not> is_space x))"
proof (induction r arbitrary: p s p' t)
  case Eps
  then show ?case by simp
next
  case (Lit c)
  then obtain x where "s = x # t" "lit_ok ic c x"
    by (auto split: list.splits if_splits)
  then show ?case using lit_ok_ink [of ic c x] by auto
next
  case (Cls P)
  then obtain x where "s = x # t" by (auto split: list.splits if_splits)
  then show ?case by simp
next
  case (Seq a b)
  from Seq.prems obtain q u where
    1: "(q, u) \<in> set (rmatch ic ml a p s)" and 2: "(p', t) \<in> set (rmatch ic ml b q u)"
    by auto
  from Seq.IH(1) [OF 1] obtain m1 where
    m1: "s = m1 @ u" "ink a \<longrightarrow> (\<exists>x\<in>set m1. \<not> is_space x)" by blast
  from Seq.IH(2) [OF 2] obtain m2 where
    m2: "u = m2 @ t" "ink b \<longrightarrow> (\<exists>x\<in>set m2. \<not> is_space x)" by blast
  from m1 m2 have "s = (m1 @ m2) @ t" by simp
  moreover from m1 m2 have "ink (Seq a b) \<longrightarrow> (\<exists>x\<in>set (m1 @ m2). \<not> is_space x)" by auto
  ultimately show ?case by blast
next
  case (Alt a b)
  from Alt.prems consider
    (l) "(p', t) \<in> set (rmatch ic ml a p s)" | (r) "(p', t) \<in> set (rmatch ic ml b p s)"
    by auto
  then show ?case
  proof cases
    case l
    from Alt.IH(1) [OF l] show ?thesis by auto
  next
    case r
    from Alt.IH(2) [OF r] show ?thesis by auto
  qed
next
  case (Star P)
  then show ?case using star_greedy_suffix by simp
next
  case (Lazy P)
  then show ?case using star_lazy_suffix by simp
next
  case Bol
  then show ?case by (simp split: if_splits)
next
  case Eol
  then show ?case by (simp split: if_splits)
next
  case Wordb
  then show ?case by (simp split: if_splits)
qed

lemma search_from_ink:
  "search_from ic ml r p s \<Longrightarrow> ink r \<Longrightarrow> \<exists>x\<in>set s. \<not> is_space x"
proof (induction s arbitrary: p)
  case Nil
  then obtain q t where "(q, t) \<in> set (rmatch ic ml r p [])"
    by (cases "rmatch ic ml r p []") auto
  from rmatch_consumes [OF this] Nil.prems(2) show ?case by fastforce
next
  case (Cons x xs)
  show ?case
  proof (cases "rmatch ic ml r p (x # xs) = []")
    case True
    with Cons.prems have "search_from ic ml r (Some x) xs" by simp
    with Cons.IH Cons.prems(2) show ?thesis by auto
  next
    case False
    then obtain q t where "(q, t) \<in> set (rmatch ic ml r p (x # xs))"
      by (cases "rmatch ic ml r p (x # xs)") auto
    from rmatch_consumes [OF this] Cons.prems(2)
    obtain m y where "x # xs = m @ t" "y \<in> set m" "\<not> is_space y" by blast
    then have "y \<in> set (x # xs) \<and> \<not> is_space y" by (metis UnI1 set_append)
    then show ?thesis by blast
  qed
qed

lemma any_search_not_blank:
  "any_search ps text \<Longrightarrow> list_all ink ps \<Longrightarrow> \<not> blank text"
  using search_from_ink
  by (auto simp: any_search_def list_ex_iff list_all_iff re_search_def blank_iff)

lemma ink_student_markers: "list_all ink student_markers" by code_simp
lemma ink_ai_markers: "list_all ink ai_markers" by code_simp
lemma ink_explicit_student_markers: "list_all ink explicit_student_markers" by code_simp
lemma ink_explicit_ai_markers: "list_all ink explicit_ai_markers" by code_simp
lemma ink_ai_indicators: "list_all ink ai_indicators" by code_simp
lemma ink_student_indicators: "list_all ink student_indicators" by code_simp

section \<open>The marker pass of the advanced analyzer keeps its invariant\<close>

lemma fold_inv:
  assumes "I st" and "\<And>x s. I s \<Longrightarrow> I (f x s)"
  shows "I (fold f xs st)"
  using assms(1)
proof (induction xs arbitrary: st)
  case Nil
  then show ?case by simp
next
  case (Cons x xs)
  from Cons.prems have "I (f x st)" by (rule assms(2))
  then show ?case using Cons.IH by simp
qed

lemma calculate_speaker_probability_bounds:
  "1 / 2 \<le> snd (calculate_speaker_probability text fo)
   \<and> snd (calculate_speaker_probability text fo) < 1"
  using decide_bounds [of "content_score_v2 text fo"]
  by (simp add: calculate_speaker_probability_def)

lemma feature_word_count_pos:
  "\<not> blank text \<Longrightarrow> 0 < feature_word_count (extract_features grade text)"
  using split_ws_not_Nil [of "text"]
  by (simp add: extract_features_def feature_word_count_def Let_def)

lemma create_segment_fields:
  "start_line_v2 (create_segment grade lines spk a b) = a
   \<and> end_line_v2 (create_segment grade lines spk a b) = b
   \<and> text_v2 (create_segment grade lines spk a b) = join_nl lines
   \<and> word_count_v2 (create_segment grade lines spk a b)
       = feature_word_count (extract_features grade (join_nl lines))"
  by (simp add: create_segment_def Let_def split: prod.splits)

lemma create_segment_role:
  "(speaker_prediction (create_segment grade lines spk a b),
    confidence_v2 (create_segment grade lines spk a b))
   = (case spk of Some r \<Rightarrow> (r, 9 / 10)
      | None \<Rightarrow> calculate_speaker_probability (join_nl lines)
                  (extract_features grade (join_nl lines)))"
  by (simp add: create_segment_def Let_def split: prod.splits option.splits)

lemma create_segment_ok:
  assumes "lines \<noteq> []" and "\<not> blank (hd lines)"
  shows "seg_ok_v2 (create_segment grade lines spk a b)"
proof -
  from assms obtain l ls where "lines = l # ls" "\<not> blank l" by (cases lines) auto
  then have "\<not> blank (join_nl lines)" by (simp add: join_nl_not_blank)
  then have wc: "0 < word_count_v2 (create_segment grade lines spk a b)"
    by (simp add: create_segment_fields feature_word_count_pos)
  have "1 / 2 \<le> confidence_v2 (create_segment grade lines spk a b)
     \<and> confidence_v2 (create_segment grade lines spk a b) < 1"
  proof (cases spk)
    case None
    with create_segment_role [of grade lines spk a b]
    have "confidence_v2 (create_segment grade lines spk a b)
        = snd (calculate_speaker_probability (join_nl lines) (extract_features grade (join_nl lines)))"
      by (metis option.simps(4) snd_conv)
    then show ?thesis using calculate_speaker_probability_bounds by simp
  next
    case (Some r)
    with create_segment_role [of grade lines spk a b] show ?thesis by simp
  qed
  with wc show ?thesis by (simp add: seg_ok_v2_def)
qed

lemma first_marker_clean:
  "first_marker ps line = Some c \<Longrightarrow> c = [] \<or> \<not> blank c"
  by (induction ps) (auto simp: strip_not_blank split: if_splits)

lemma detect_clean:
  "detect sm am line = (Some r, c) \<Longrightarrow> c = [] \<or> \<not> blank c"
  using first_marker_clean
  by (fastforce simp: detect_def split: option.splits)

lemma inv_marker_step:
  "inv_marker i st \<Longrightarrow> inv_marker (Suc i) (marker_step grade (i, line) st)"
proof -
  assume inv: "inv_marker i st"
  obtain d c where dc: "detect explicit_student_markers explicit_ai_markers line = (d, c)"
    by (cases "detect explicit_student_markers explicit_ai_markers line")
  show ?thesis
  proof (cases "blank line")
    case True
    then have "marker_step grade (i, line) st = st
      \<or> (current_chunk st \<noteq> [] \<and>
          marker_step grade (i, line) st = st\<lparr>current_chunk := current_chunk st @ [line]\<rparr>)"
      by (auto simp: marker_step_def Let_def)
    with inv show ?thesis by (auto simp: inv_marker_def)
  next
    case nb: False
    show ?thesis
    proof (cases "d \<noteq> None \<and> d \<noteq> current_speaker st")
      case False
      with nb dc have "marker_step grade (i, line) st
          = st\<lparr>current_chunk := current_chunk st @ [line]\<rparr>"
        by (auto simp: marker_step_def Let_def)
      with inv nb show ?thesis by (cases "current_chunk st") (auto simp: inv_marker_def)
    next
      case True
      then obtain r where r: "d = Some r" by auto
      with dc have c: "c = [] \<or> \<not> blank c" using detect_clean by blast
      let ?new = "create_segment grade (current_chunk st) (current_speaker st) (start_line st) (int i - 1)"
      let ?f = "if current_chunk st \<noteq> [] then segs st @ [?new] else segs st"
      from True nb dc have eq: "marker_step grade (i, line) st =
        \<lparr>segs = ?f, current_chunk = (if c \<noteq> [] then [c] else []), current_speaker = d,
         start_line = int i\<rparr>"
        by (simp add: marker_step_def Let_def)
      have fl: "list_all (\<lambda>seg. seg_ok_v2 seg \<and> 0 \<le> start_line_v2 seg
                   \<and> start_line_v2 seg \<le> end_line_v2 seg \<and> end_line_v2 seg < int i) ?f
        \<and> sorted_wrt (\<lambda>a b. end_line_v2 a < start_line_v2 b) ?f"
      proof (cases "current_chunk st = []")
        case True
        with inv show ?thesis by (auto simp: inv_marker_def list_all_iff)
      next
        case False
        with inv have "seg_ok_v2 ?new" by (auto simp: inv_marker_def intro: create_segment_ok)
        with False inv show ?thesis
          by (auto simp: inv_marker_def list_all_iff sorted_wrt_append create_segment_fields)
      qed
      from fl c show ?thesis unfolding eq by (auto simp: inv_marker_def)
    qed
  qed
qed

lemma inv_marker_fold:
  "inv_marker (length ls) (fold (marker_step grade) (enumerate 0 ls) seg_init)"
proof -
  have "inv_marker 0 seg_init" by (simp add: inv_marker_def seg_init_def)
  with fold_enumerate_inv [of inv_marker 0 seg_init "marker_step grade" ls] inv_marker_step
  show ?thesis by simp
qed

lemma segment_by_markers_ok:
  "ranges_ok_v2 (int (length lines)) (segment_by_markers grade lines)"
proof -
  let ?st = "fold (marker_step grade) (enumerate 0 lines) seg_init"
  let ?n = "int (length lines)"
  let ?new = "create_segment grade (current_chunk ?st) (current_speaker ?st) (start_line ?st) (?n - 1)"
  have inv: "inv_marker (length lines) ?st" by (rule inv_marker_fold)
  show ?thesis
  proof (cases "current_chunk ?st = []")
    case True
    with inv show ?thesis
      by (auto simp: segment_by_markers_def Let_def inv_marker_def ranges_ok_v2_def list_all_iff)
  next
    case False
    with inv have "seg_ok_v2 ?new" by (auto simp: inv_marker_def intro: create_segment_ok)
    with False inv show ?thesis
      by (auto simp: segment_by_markers_def Let_def inv_marker_def ranges_ok_v2_def list_all_iff
            sorted_wrt_append create_segment_fields)
  qed
qed

section \<open>The content fallback of the advanced analyzer\<close>

lemma chunk_step_group_step:
  "chunk_step line (map join_nl gs, cur)
     = (case group_step line (gs, cur) of (g, c) \<Rightarrow> (map join_nl g, c))"
  by (simp add: chunk_step_def group_step_def)

lemma fold_chunk_step_groups:
  "fold chunk_step ls (map join_nl gs, cur)
     = (case fold group_step ls (gs, cur) of (g, c) \<Rightarrow> (map join_nl g, c))"
proof (induction ls arbitrary: gs cur)
  case Nil
  then show ?case by simp
next
  case (Cons l ls)
  obtain g c where gc: "group_step l (gs, cur) = (g, c)" by (cases "group_step l (gs, cur)")
  then have "chunk_step l (map join_nl gs, cur) = (map join_nl g, c)"
    by (simp add: chunk_step_group_step)
  with gc Cons.IH [of g c] show ?case by simp
qed

lemma content_chunks_groups: "content_chunks lines = map join_nl (chunk_groups lines)"
proof -
  obtain g c where gc: "fold group_step lines ([], []) = (g, c)"
    by (cases "fold group_step lines ([], [])")
  with fold_chunk_step_groups [of lines "[]" "[]"]
  have "fold chunk_step lines ([], []) = (map join_nl g, c)" by simp
  with gc show ?thesis by (simp add: content_chunks_def chunk_groups_def)
qed

lemma fold_group_step:
  "fold group_step ls (gs, cur) = (gs', cur') \<Longrightarrow>
     concat gs' @ cur' = concat gs @ cur @ filter (\<lambda>l. \<not> blank l) ls
     \<and> (list_all (\<lambda>g. 2 < length g) gs \<longrightarrow> list_all (\<lambda>g. 2 < length g) gs')"
proof (induction ls arbitrary: gs cur)
  case Nil
  then show ?case by simp
next
  case (Cons l ls)
  obtain g c where gc: "group_step l (gs, cur) = (g, c)" by (cases "group_step l (gs, cur)")
  with Cons.prems have "fold group_step ls (g, c) = (gs', cur')" by simp
  from Cons.IH [OF this]
  have ih: "concat gs' @ cur' = concat g @ c @ filter (\<lambda>l. \<not> blank l) ls"
    "list_all (\<lambda>g. 2 < length g) g \<longrightarrow> list_all (\<lambda>g. 2 < length g) gs'" by simp_all
  from gc have "concat g @ c = concat gs @ cur @ filter (\<lambda>x. \<not> blank x) [l]
      \<and> (list_all (\<lambda>g. 2 < length g) gs \<longrightarrow> list_all (\<lambda>g. 2 < length g) g)"
    by (auto simp: group_step_def split: if_splits)
  with ih show ?case by auto
qed

lemma chunk_groups_props:
  "concat (chunk_groups lines) = filter (\<lambda>l. \<not> blank l) lines
   \<and> list_all (\<lambda>g. 2 < length g) (butlast (chunk_groups lines))
   \<and> list_all (\<lambda>g. g \<noteq> []) (chunk_groups lines)"
proof -
  obtain g c where gc: "fold group_step lines ([], []) = (g, c)"
    by (cases "fold group_step lines ([], [])")
  from fold_group_step [OF gc]
  have 1: "concat g @ c = filter (\<lambda>l. \<not> blank l) lines" and 2: "list_all (\<lambda>g. 2 < length g) g"
    by simp_all
  from 2 have 3: "list_all (\<lambda>g. g \<noteq> []) g" by (auto simp: list_all_iff)
  show ?thesis
  proof (cases "c = []")
    case True
    with gc 1 2 3 show ?thesis
      by (auto simp: chunk_groups_def list_all_iff dest: in_set_butlastD)
  next
    case False
    with gc 1 2 3 show ?thesis by (simp add: chunk_groups_def)
  qed
qed

lemma chunk_groups_not_blank:
  assumes "g \<in> set (chunk_groups lines)"
  shows "g \<noteq> [] \<and> \<not> blank (hd g)"
proof -
  from assms chunk_groups_props [of lines] have ne: "g \<noteq> []" by (auto simp: list_all_iff)
  then have "hd g \<in> set g" by simp
  with assms have "hd g \<in> set (concat (chunk_groups lines))" by auto
  then have "hd g \<in> set (filter (\<lambda>l. \<not> blank l) lines)"
    using chunk_groups_props [of lines] by simp
  with ne show ?thesis by simp
qed

lemma content_segment_ok: "\<not> blank chunk \<Longrightarrow> seg_ok_v2 (content_segment grade (i, chunk))"
  using calculate_speaker_probability_bounds [of chunk "extract_features grade chunk"]
  by (auto simp: content_segment_def Let_def seg_ok_v2_def feature_word_count_pos
        split: prod.splits)

lemma segment_by_content_ok: "list_all seg_ok_v2 (segment_by_content grade lines)"
proof -
  have "\<not> blank chunk" if "chunk \<in> set (content_chunks lines)" for chunk
  proof -
    from that obtain g where g: "g \<in> set (chunk_groups lines)" "chunk = join_nl g"
      by (auto simp: content_chunks_groups)
    from chunk_groups_not_blank [OF g(1)] obtain l ls where "g = l # ls" "\<not> blank l"
      by (cases g) auto
    with g(2) show ?thesis by (simp add: join_nl_not_blank)
  qed
  then have "seg_ok_v2 (content_segment grade ic)"
    if "ic \<in> set (enumerate 0 (content_chunks lines))" for ic
    using that content_segment_ok [of "snd ic" grade "fst ic"]
    by (cases ic) (auto simp: in_set_enumerate_eq)
  then show ?thesis by (simp add: segment_by_content_def list_all_iff)
qed

lemma smart_segment_transcript_ok: "list_all seg_ok_v2 (smart_segment_transcript grade content)"
  using segment_by_markers_ok [of "split_nl content" grade] segment_by_content_ok [of grade "split_nl content"]
  by (auto simp: smart_segment_transcript_def Let_def ranges_ok_v2_def list_all_iff)

section \<open>The original segmenter\<close>

lemma flush_orig_cases:
  "flush_orig sgs chunk spk a b = sgs \<or>
   (\<exists>seg. flush_orig sgs chunk spk a b = sgs @ [seg] \<and> chunk \<noteq> []
      \<and> seg_text seg = join_nl chunk \<and> word_count seg = count_words_orig (join_nl chunk)
      \<and> 0 < word_count seg \<and> line_start seg = a \<and> line_end seg = b
      \<and> (speaker seg, confidence seg) =
           (case spk of Some r \<Rightarrow> (r, 9 / 10)
            | None \<Rightarrow> (if calculate_ai_probability (join_nl chunk) > 1 / 2 then AI else Student,
                        \<bar>calculate_ai_probability (join_nl chunk) - 1 / 2\<bar> * 2)))"
  by (auto simp: flush_orig_def Let_def split: prod.splits option.splits)

lemma flush_orig_pos:
  "list_all (\<lambda>seg. 0 < word_count seg) sgs
     \<Longrightarrow> list_all (\<lambda>seg. 0 < word_count seg) (flush_orig sgs chunk spk a b)"
  using flush_orig_cases [of sgs chunk spk a b] by auto

lemma seg_step_orig_pos:
  "list_all (\<lambda>seg. 0 < word_count seg) (segs st)
     \<Longrightarrow> list_all (\<lambda>seg. 0 < word_count seg) (segs (seg_step_orig il st))"
  by (auto simp: seg_step_orig_def Let_def flush_orig_pos split: prod.splits)

lemma segment_transcript_orig_pos:
  "list_all (\<lambda>seg. 0 < word_count seg) (segment_transcript_orig content)"
proof -
  have "list_all (\<lambda>seg. 0 < word_count seg)
          (segs (fold seg_step_orig (enumerate 0 (split_nl content)) seg_init))"
    by (rule fold_inv) (simp_all add: seg_init_def seg_step_orig_pos)
  then show ?thesis by (simp add: segment_transcript_orig_def Let_def flush_orig_pos)
qed

section \<open>Totals of an analysis\<close>

lemma words_of_nonneg: "list_all (\<lambda>seg. 0 < word_count seg) sgs \<Longrightarrow> 0 \<le> words_of r sgs"
  by (force simp: words_of_def list_all_iff intro!: sum_list_nonneg)

lemma words_of_v2_nonneg: "list_all seg_ok_v2 sgs \<Longrightarrow> 0 \<le> words_of_v2 r sgs"
  by (force simp: words_of_v2_def list_all_iff seg_ok_v2_def intro!: sum_list_nonneg)

lemma ratio_bounds:
  fixes aw sw :: int
  assumes "0 \<le> aw" and "0 \<le> sw"
  shows "0 \<le> (if aw + sw > 0 then real_of_int sw / real_of_int (aw + sw) else 0)
     \<and> (if aw + sw > 0 then real_of_int sw / real_of_int (aw + sw) else 0) \<le> 1"
  using assms by (simp add: divide_le_eq)

lemma segment_transcript_pos:
  "list_all (\<lambda>seg. 0 < word_count seg) (segment_transcript grade content)"
  using segment_transcript_ok [of content grade]
  by (simp add: ranges_ok_def seg_ok_def list_all_iff)

lemma analyze_transcript_totals:
  "ai_words (analyze_transcript grade name rd) + student_words (analyze_transcript grade name rd)
     = total_words (analyze_transcript grade name rd)
   \<and> 0 \<le> total_words (analyze_transcript grade name rd)
   \<and> 0 \<le> student_ratio (analyze_transcript grade name rd)
   \<and> student_ratio (analyze_transcript grade name rd) \<le> 1
   \<and> student_ratio (analyze_transcript grade name rd)
       = (if total_words (analyze_transcript grade name rd) > 0
          then real_of_int (student_words (analyze_transcript grade name rd))
               / real_of_int (total_words (analyze_transcript grade name rd))
          else 0)"
proof (cases rd)
  case (Inl e)
  then show ?thesis by (simp add: analyze_transcript_def)
next
  case (Inr content)
  show ?thesis
  proof (cases "blank content")
    case True
    with Inr show ?thesis by (simp add: analyze_transcript_def)
  next
    case False
    let ?sgs = "segment_transcript grade content"
    have a: "0 \<le> words_of AI ?sgs" and s: "0 \<le> words_of Student ?sgs"
      using segment_transcript_pos [of grade content] by (simp_all add: words_of_nonneg)
    from ratio_bounds [OF a s] a s False Inr show ?thesis
      by (simp add: analyze_transcript_def Let_def)
  qed
qed

lemma analyze_transcript_v2_totals:
  "ai_words_v2 (analyze_transcript_v2 grade name rd) + student_words_v2 (analyze_transcript_v2 grade name rd)
     = total_words_v2 (analyze_transcript_v2 grade name rd)
   \<and> 0 \<le> total_words_v2 (analyze_transcript_v2 grade name rd)
   \<and> 0 \<le> student_ratio_v2 (analyze_transcript_v2 grade name rd)
   \<and> student_ratio_v2 (analyze_transcript_v2 grade name rd) \<le> 1
   \<and> student_ratio_v2 (analyze_transcript_v2 grade name rd)
       = (if total_words_v2 (analyze_transcript_v2 grade name rd) > 0
          then real_of_int (student_words_v2 (analyze_transcript_v2 grade name rd))
               / real_of_int (total_words_v2 (analyze_transcript_v2 grade name rd))
          else 0)"
proof (cases rd)
  case (Inl e)
  then show ?thesis by (simp add: analyze_transcript_v2_def)
next
  case (Inr content)
  show ?thesis
  proof (cases "blank content")
    case True
    with Inr show ?thesis by (simp add: analyze_transcript_v2_def)
  next
    case False
    let ?sgs = "smart_segment_transcript grade content"
    have a: "0 \<le> words_of_v2 AI ?sgs" and s: "0 \<le> words_of_v2 Student ?sgs"
      using smart_segment_transcript_ok [of grade content] by (simp_all add: words_of_v2_nonneg)
    from ratio_bounds [OF a s] a s False Inr show ?thesis
      by (simp add: analyze_transcript_v2_def Let_def)
  qed
qed

lemma analyze_transcript_orig_totals:
  "analyze_transcript_orig name rd = Inr a \<Longrightarrow>
     ai_words_orig a + student_words_orig a = total_words_orig a
   \<and> 0 \<le> total_words_orig a \<and> 0 \<le> student_ratio_orig a \<and> student_ratio_orig a \<le> 1
   \<and> student_ratio_orig a
       = (if total_words_orig a > 0
          then real_of_int (student_words_orig a) / real_of_int (total_words_orig a) else 0)"
proof (cases rd)
  case (Inl e)
  assume "analyze_transcript_orig name rd = Inr a"
  with Inl show ?thesis by (simp add: analyze_transcript_orig_def)
next
  case (Inr content)
  assume r: "analyze_transcript_orig name rd = Inr a"
  let ?sgs = "segment_transcript_orig content"
  have a: "0 \<le> words_of AI ?sgs" and s: "0 \<le> words_of Student ?sgs"
    using segment_transcript_orig_pos [of content] by (simp_all add: words_of_nonneg)
  from ratio_bounds [OF a s] a s Inr r show ?thesis
    by (auto simp: analyze_transcript_orig_def Let_def)
qed

section \<open>Line ranges of the segments\<close>

lemma sorted_ranges_unique:
  fixes s e :: "'a \<Rightarrow> int"
  assumes srt: "sorted_wrt (\<lambda>a b. e a < s b) xs"
    and j: "j < length xs" and k: "k < length xs"
    and cj: "s (xs ! j) \<le> i \<and> i \<le> e (xs ! j)"
    and ck: "s (xs ! k) \<le> i \<and> i \<le> e (xs ! k)"
  shows "j = k"
proof (rule ccontr)
  assume "j \<noteq> k"
  then consider "j < k" | "k < j" by linarith
  then show False
  proof cases
    case 1
    with srt have "e (xs ! j) < s (xs ! k)" using k by (rule sorted_wrt_nth_less)
    with cj ck show False by linarith
  next
    case 2
    with srt have "e (xs ! k) < s (xs ! j)" using j by (rule sorted_wrt_nth_less)
    with cj ck show False by linarith
  qed
qed

lemma segment_by_content_ranges:
  assumes "k < length (content_chunks lines)"
  shows "start_line_v2 (segment_by_content grade lines ! k) = 10 * int k
     \<and> end_line_v2 (segment_by_content grade lines ! k) = 10 * (int k + 1)"
  using assms
  by (simp add: segment_by_content_def nth_enumerate_eq content_segment_def Let_def
        split: prod.splits)

lemma marker_only_ranges:
  "map (\<lambda>s. (line_start s, line_end s)) (segment_transcript (\<lambda>t. None) marker_only) = [(1, 1)]
   \<and> length (split_nl marker_only) = 2"
  by code_simp

section \<open>The classifiers\<close>

lemma classify_speaker_student_marker:
  "any_search student_markers text \<Longrightarrow> classify_speaker grade text = (Student, 0.95)"
  using any_search_not_blank [OF _ ink_student_markers]
  by (auto simp: classify_speaker_def)

lemma classify_speaker_ai_marker:
  "\<not> any_search student_markers text \<Longrightarrow> any_search ai_markers text
     \<Longrightarrow> classify_speaker grade text = (AI, 0.95)"
  using any_search_not_blank [OF _ ink_ai_markers]
  by (auto simp: classify_speaker_def)

lemma classify_speaker_content:
  "\<not> blank text \<Longrightarrow> \<not> any_search student_markers text \<Longrightarrow> \<not> any_search ai_markers text
     \<Longrightarrow> classify_speaker grade text = decide (content_score grade text)"
  by (simp add: classify_speaker_def)

lemma decide_form:
  "decide s = (if sigmoid s > 1 / 2 then AI else Student, max (sigmoid s) (1 - sigmoid s))"
  by (auto simp: decide_def Let_def max_def)

lemma sigmoid_zero: "sigmoid 0 = 1 / 2"
  by (simp add: sigmoid_def)

lemma add_hits_none: "\<not> any_search ps text \<Longrightarrow> add_hits ps w text sc = sc"
proof -
  assume "\<not> any_search ps text"
  then have "\<forall>p\<in>set ps. \<not> re_search True True p text"
    by (simp add: any_search_def list_ex_iff)
  then have "fold (\<lambda>p sc. if re_search True True p text then sc + w else sc) ps sc = sc"
    by (induction ps arbitrary: sc) simp_all
  then show ?thesis by (simp add: add_hits_def)
qed

lemma blank_no_search: "blank text \<Longrightarrow> list_all ink ps \<Longrightarrow> \<not> any_search ps text"
  using any_search_not_blank by blast

lemma calculate_speaker_probability_blank:
  assumes "blank text"
  shows "calculate_speaker_probability text (extract_features grade text) = (Student, 1 / 2)"
proof -
  from assms have n: "\<not> any_search explicit_ai_markers text"
    "\<not> any_search explicit_student_markers text"
    "\<not> any_search ai_indicators text" "\<not> any_search student_indicators text"
    by (simp_all add: blank_no_search ink_explicit_ai_markers ink_explicit_student_markers
          ink_ai_indicators ink_student_indicators)
  from assms have "extract_features grade text = None" by (simp add: extract_features_def)
  with n(3,4) have "content_score_v2 text (extract_features grade text) = 0"
    by (simp add: content_score_v2_def feature_score_def add_hits_none)
  with n(1,2) show ?thesis
    by (simp add: calculate_speaker_probability_def decide_def sigmoid_zero)
qed

lemma mean_ge:
  assumes "xs \<noteq> []" and "\<forall>x\<in>set xs. c \<le> x"
  shows "c \<le> mean xs"
proof -
  from assms(2) have "c * real (length xs) \<le> sum_list xs"
    by (induction xs) (simp_all add: algebra_simps)
  moreover from assms(1) have "0 < real (length xs)" by simp
  ultimately show ?thesis by (simp add: mean_def pos_le_divide_eq)
qed

lemma analyze_transcript_segments:
  "segments (analyze_transcript grade name rd) \<noteq> [] \<Longrightarrow>
     (\<exists>content. rd = Inr content \<and> \<not> blank content
        \<and> segments (analyze_transcript grade name rd) = segment_transcript grade content
        \<and> confidence_score (analyze_transcript grade name rd)
            = mean (map confidence (segment_transcript grade content)))"
  by (cases rd) (auto simp: analyze_transcript_def Let_def split: if_splits)

lemma analyze_transcript_v2_segments:
  "segments_v2 (analyze_transcript_v2 grade name rd) \<noteq> [] \<Longrightarrow>
     (\<exists>content. rd = Inr content \<and> \<not> blank content
        \<and> segments_v2 (analyze_transcript_v2 grade name rd) = smart_segment_transcript grade content
        \<and> confidence_score_v2 (analyze_transcript_v2 grade name rd)
            = mean (map confidence_v2 (smart_segment_transcript grade content)))"
  by (cases rd) (auto simp: analyze_transcript_v2_def Let_def split: if_splits)

lemma confidence_score_ge:
  assumes "segments (analyze_transcript grade name rd) \<noteq> []"
  shows "1 / 2 \<le> confidence_score (analyze_transcript grade name rd)"
proof -
  from analyze_transcript_segments [OF assms] obtain content where
    c: "segments (analyze_transcript grade name rd) = segment_transcript grade content"
       "confidence_score (analyze_transcript grade name rd)
            = mean (map confidence (segment_transcript grade content))" by blast
  from segment_transcript_ok [of content grade]
  have "\<forall>x\<in>set (map confidence (segment_transcript grade content)). 1 / 2 \<le> x"
    by (auto simp: ranges_ok_def seg_ok_def list_all_iff)
  moreover from assms c(1) have "map confidence (segment_transcript grade content) \<noteq> []" by simp
  ultimately show ?thesis unfolding c(2) by (intro mean_ge)
qed

lemma confidence_score_v2_ge:
  assumes "segments_v2 (analyze_transcript_v2 grade name rd) \<noteq> []"
  shows "1 / 2 \<le> confidence_score_v2 (analyze_transcript_v2 grade name rd)"
proof -
  from analyze_transcript_v2_segments [OF assms] obtain content where
    c: "segments_v2 (analyze_transcript_v2 grade name rd) = smart_segment_transcript grade content"
       "confidence_score_v2 (analyze_transcript_v2 grade name rd)
            = mean (map confidence_v2 (smart_segment_transcript grade content))" by blast
  from smart_segment_transcript_ok [of grade content]
  have "\<forall>x\<in>set (map confidence_v2 (smart_segment_transcript grade content)). 1 / 2 \<le> x"
    by (auto simp: seg_ok_v2_def list_all_iff)
  moreover from assms c(1) have "map confidence_v2 (smart_segment_transcript grade content) \<noteq> []"
    by simp
  ultimately show ?thesis unfolding c(2) by (intro mean_ge)
qed

section \<open>Steps of the segmentation loops\<close>

lemma seg_step_chunk:
  "current_chunk (seg_step grade (i, line) st) = current_chunk st
   \<or> current_chunk (seg_step grade (i, line) st) = current_chunk st @ [line]
   \<or> (\<exists>r c. detect student_markers ai_markers line = (Some r, c)
         \<and> current_speaker st \<noteq> Some r
         \<and> current_speaker (seg_step grade (i, line) st) = Some r
         \<and> start_line (seg_step grade (i, line) st) = int i
         \<and> current_chunk (seg_step grade (i, line) st) = (if c \<noteq> [] then [c] else []))"
  by (cases "detect student_markers ai_markers line") (auto simp: seg_step_def Let_def)

lemma marker_step_chunk:
  "current_chunk (marker_step grade (i, line) st) = current_chunk st
   \<or> current_chunk (marker_step grade (i, line) st) = current_chunk st @ [line]
   \<or> (\<exists>r c. detect explicit_student_markers explicit_ai_markers line = (Some r, c)
         \<and> current_speaker st \<noteq> Some r
         \<and> current_speaker (marker_step grade (i, line) st) = Some r
         \<and> start_line (marker_step grade (i, line) st) = int i
         \<and> current_chunk (marker_step grade (i, line) st) = (if c \<noteq> [] then [c] else []))"
  by (cases "detect explicit_student_markers explicit_ai_markers line")
     (auto simp: marker_step_def Let_def)

lemma seg_step_orig_chunk:
  "current_chunk (seg_step_orig (i, line) st) = current_chunk st
   \<or> current_chunk (seg_step_orig (i, line) st) = current_chunk st @ [line]
   \<or> (\<exists>r c. detect_orig line = (Some r, c)
         \<and> current_speaker st \<noteq> Some r
         \<and> current_speaker (seg_step_orig (i, line) st) = Some r
         \<and> start_line (seg_step_orig (i, line) st) = int i
         \<and> current_chunk (seg_step_orig (i, line) st) = (if c \<noteq> [] then [c] else []))"
  by (cases "detect_orig line") (auto simp: seg_step_orig_def Let_def)

section \<open>The fallback classifies its chunks with the marker tables first\<close>

lemma content_segment_role:
  "(speaker_prediction (content_segment grade (k, chunk)),
    confidence_v2 (content_segment grade (k, chunk)))
     = calculate_speaker_probability chunk (extract_features grade chunk)"
  by (simp add: content_segment_def Let_def split: prod.splits)

section \<open>How the returned segments get their role\<close>

lemma flush_labelled:
  "list_all (labelled grade) sgs \<Longrightarrow> list_all (labelled grade) (flush grade sgs chunk spk a b)"
  using flush_cases [of grade sgs chunk spk a b]
  by (cases spk) (auto simp: labelled_def)

lemma seg_step_labelled:
  "list_all (labelled grade) (segs st)
     \<Longrightarrow> list_all (labelled grade) (segs (seg_step grade il st))"
  by (auto simp: seg_step_def Let_def flush_labelled split: prod.splits)

lemma segment_transcript_labelled:
  "list_all (labelled grade) (segment_transcript grade content)"
proof -
  let ?st = "fold (seg_step grade) (enumerate 0 (split_nl content)) seg_init"
  have "list_all (labelled grade) (segs ?st)"
    by (rule fold_inv) (simp_all add: seg_init_def seg_step_labelled)
  then have "list_all (labelled grade)
      (flush grade (segs ?st) (current_chunk ?st) (current_speaker ?st) (start_line ?st)
         (int (length (split_nl content)) - 1))"
    by (rule flush_labelled)
  then show ?thesis
    by (auto simp: segment_transcript_def Let_def labelled_def split: prod.splits)
qed

lemma create_segment_labelled: "labelled_v2 grade (create_segment grade chunk spk a b)"
  using create_segment_role [of grade chunk spk a b] create_segment_fields [of grade chunk spk a b]
  by (cases spk) (auto simp: labelled_v2_def)

lemma marker_step_labelled:
  "list_all (labelled_v2 grade) (segs st)
     \<Longrightarrow> list_all (labelled_v2 grade) (segs (marker_step grade il st))"
  by (auto simp: marker_step_def Let_def create_segment_labelled split: prod.splits)

lemma segment_by_markers_labelled:
  "list_all (labelled_v2 grade) (segment_by_markers grade lines)"
proof -
  have "list_all (labelled_v2 grade) (segs (fold (marker_step grade) (enumerate 0 lines) seg_init))"
    by (rule fold_inv) (simp_all add: seg_init_def marker_step_labelled)
  then show ?thesis
    by (simp add: segment_by_markers_def Let_def create_segment_labelled)
qed

lemma content_segment_labelled: "labelled_v2 grade (content_segment grade ic)"
  by (cases ic) (simp add: labelled_v2_def content_segment_def Let_def split: prod.splits)

lemma smart_segment_transcript_labelled:
  "list_all (labelled_v2 grade) (smart_segment_transcript grade content)"
  using segment_by_markers_labelled [of grade "split_nl content"]
  by (simp add: smart_segment_transcript_def Let_def segment_by_content_def list_all_iff
        content_segment_labelled)

section \<open>When the content fallback of the advanced analyzer runs\<close>

lemma marker_step_clean:
  assumes "segs (marker_step grade (i, line) st) = []"
    and "current_chunk (marker_step grade (i, line) st) = []"
  shows "segs st = [] \<and> current_chunk st = [] \<and> bare line"
proof -
  obtain d c where dc: "detect explicit_student_markers explicit_ai_markers line = (d, c)"
    by (cases "detect explicit_student_markers explicit_ai_markers line")
  show ?thesis
  proof (cases "blank line")
    case True
    with assms show ?thesis
      by (auto simp: marker_step_def Let_def bare_def split: if_splits)
  next
    case False
    show ?thesis
    proof (cases "d \<noteq> None \<and> d \<noteq> current_speaker st")
      case True
      with False dc assms show ?thesis
        by (auto simp: marker_step_def Let_def bare_def split: if_splits)
    next
      case other: False
      with False dc have "current_chunk (marker_step grade (i, line) st) = current_chunk st @ [line]"
        by (auto simp: marker_step_def Let_def)
      with assms(2) show ?thesis by simp
    qed
  qed
qed

lemma fold_marker_step_clean:
  "segs (fold (marker_step grade) (enumerate k ls) st) = []
     \<Longrightarrow> current_chunk (fold (marker_step grade) (enumerate k ls) st) = []
     \<Longrightarrow> segs st = [] \<and> current_chunk st = [] \<and> list_all bare ls"
proof (induction ls arbitrary: k st)
  case Nil
  then show ?case by simp
next
  case (Cons l ls)
  from Cons.prems have
    "segs (fold (marker_step grade) (enumerate (Suc k) ls) (marker_step grade (k, l) st)) = []"
    "current_chunk (fold (marker_step grade) (enumerate (Suc k) ls) (marker_step grade (k, l) st)) = []"
    by simp_all
  from Cons.IH [OF this] have
    1: "segs (marker_step grade (k, l) st) = []"
    and 2: "current_chunk (marker_step grade (k, l) st) = []"
    and 3: "list_all bare ls" by simp_all
  from marker_step_clean [OF 1 2] 3 show ?case by simp
qed

lemma segment_by_markers_Nil_bare:
  "segment_by_markers grade lines = [] \<Longrightarrow> list_all bare lines"
proof -
  assume a: "segment_by_markers grade lines = []"
  let ?st = "fold (marker_step grade) (enumerate 0 lines) seg_init"
  from a have "segs ?st = []" "current_chunk ?st = []"
    by (auto simp: segment_by_markers_def Let_def split: if_splits)
  from fold_marker_step_clean [OF this] show ?thesis by simp
qed

lemma star_greedy_self: "(prev, s) \<in> set (star_greedy P prev s)"
  by (cases s) simp_all

lemma star_lazy_self: "(prev, s) \<in> set (star_lazy P prev s)"
  by (cases s) simp_all

lemma star_greedy_extend:
  "(q, t) \<in> set (star_greedy P prev s) \<Longrightarrow> (q, t @ ext) \<in> set (star_greedy P prev (s @ ext))"
proof (induction s arbitrary: prev)
  case Nil
  then show ?case using star_greedy_self [of prev ext P] by simp
next
  case (Cons x xs)
  show ?case
  proof (cases "(q, t) = (prev, x # xs)")
    case True
    then show ?thesis by simp
  next
    case False
    with Cons.prems have "P x" "(q, t) \<in> set (star_greedy P (Some x) xs)"
      by (auto split: if_splits)
    with Cons.IH show ?thesis by simp
  qed
qed

lemma star_lazy_extend:
  "(q, t) \<in> set (star_lazy P prev s) \<Longrightarrow> (q, t @ ext) \<in> set (star_lazy P prev (s @ ext))"
proof (induction s arbitrary: prev)
  case Nil
  then show ?case using star_lazy_self [of prev ext P] by simp
next
  case (Cons x xs)
  show ?case
  proof (cases "(q, t) = (prev, x # xs)")
    case True
    then show ?thesis by simp
  next
    case False
    with Cons.prems have "P x" "(q, t) \<in> set (star_lazy P (Some x) xs)"
      by (auto split: if_splits)
    with Cons.IH show ?thesis by simp
  qed
qed

lemma newline_not_word: "\<not> is_word newline"
  by code_simp

lemma word_after_extend:
  "ext = [] \<or> hd ext = newline \<Longrightarrow> word_after (s @ ext) = word_after s"
  using newline_not_word
  by (cases s; cases ext) (auto simp: word_after_def)

text \<open>
  A match on a line is still a match when the line is followed by a newline and more
  text and the pattern is run under MULTILINE.
\<close>

lemma rmatch_extend:
  assumes ext: "ext = [] \<or> hd ext = newline"
  shows "(q, t) \<in> set (rmatch ic False r prev s)
     \<Longrightarrow> (q, t @ ext) \<in> set (rmatch ic True r prev (s @ ext))"
proof (induction r arbitrary: prev s q t)
  case Eps
  then show ?case by simp
next
  case (Lit c)
  then show ?case by (auto split: list.splits if_splits)
next
  case (Cls P)
  then show ?case by (auto split: list.splits if_splits)
next
  case (Seq a b)
  from Seq.prems obtain q1 u where
    1: "(q1, u) \<in> set (rmatch ic False a prev s)" and 2: "(q, t) \<in> set (rmatch ic False b q1 u)"
    by auto
  from Seq.IH(1) [OF 1] Seq.IH(2) [OF 2] show ?case by force
next
  case (Alt a b)
  then show ?case by auto
next
  case (Star P)
  then show ?case by (simp add: star_greedy_extend)
next
  case (Lazy P)
  then show ?case by (simp add: star_lazy_extend)
next
  case Bol
  then show ?case by (simp split: if_splits)
next
  case Eol
  with ext show ?case by (cases ext) (auto split: if_splits)
next
  case Wordb
  with word_after_extend [OF ext, of s] show ?case by (simp split: if_splits)
qed

lemma re_match_search_join:
  assumes "re_match True False p l"
  shows "re_search True True p (join_nl (l # ls))"
proof -
  obtain ext where j: "join_nl (l # ls) = l @ ext" and e: "ext = [] \<or> hd ext = newline"
    by (cases ls) auto
  from assms obtain q t where "(q, t) \<in> set (rmatch True False p None l)"
    by (cases "rmatch True False p None l") (auto simp: re_match_def)
  from rmatch_extend [OF e this] have "rmatch True True p None (l @ ext) \<noteq> []" by auto
  then have "search_from True True p None (l @ ext)" by (cases "l @ ext") simp_all
  with j show ?thesis by (simp add: re_search_def)
qed

lemma first_marker_match:
  "first_marker ps l = Some c \<Longrightarrow> \<exists>p\<in>set ps. re_match True False p l"
  by (induction ps) (auto split: if_splits)

lemma marker_line_search:
  assumes "\<not> unmarked l"
  shows "any_search explicit_ai_markers (join_nl (l # ls))
     \<or> any_search explicit_student_markers (join_nl (l # ls))"
proof -
  from assms have "(\<exists>c. first_marker explicit_student_markers l = Some c)
     \<or> (\<exists>c. first_marker explicit_ai_markers l = Some c)"
    by (auto simp: unmarked_def detect_def split: option.splits)
  then obtain p where "p \<in> set explicit_student_markers \<or> p \<in> set explicit_ai_markers"
    "re_match True False p l"
    using first_marker_match by blast
  with re_match_search_join [of p l ls] show ?thesis
    by (auto simp: any_search_def list_ex_iff)
qed

lemma bare_not_blank: "bare l \<Longrightarrow> \<not> blank l \<Longrightarrow> \<not> unmarked l"
  by (auto simp: bare_def unmarked_def split: prod.splits option.splits)

lemma fallback_chunk_has_marker:
  assumes "list_all bare lines" and "chunk \<in> set (content_chunks lines)"
  shows "any_search explicit_ai_markers chunk \<or> any_search explicit_student_markers chunk"
proof -
  from assms(2) obtain g where g: "g \<in> set (chunk_groups lines)" "chunk = join_nl g"
    by (auto simp: content_chunks_groups)
  from chunk_groups_not_blank [OF g(1)] obtain l ls where l: "g = l # ls" "\<not> blank l"
    by (cases g) auto
  then have "l \<in> set g" by simp
  with g(1) have "l \<in> set (concat (chunk_groups lines))" by auto
  then have "l \<in> set lines" using chunk_groups_props [of lines] by simp
  with assms(1) have "bare l" by (simp add: list_all_iff)
  then have "\<not> unmarked l" using l(2) by (rule bare_not_blank)
  from marker_line_search [OF this, of ls] g(2) l(1) show ?thesis by simp
qed

lemma fallback_labels_by_marker:
  assumes "segment_by_markers grade (split_nl content) = []"
    and "seg \<in> set (smart_segment_transcript grade content)"
  shows "confidence_v2 seg = 0.95
     \<and> (any_search explicit_ai_markers (text_v2 seg)
         \<or> any_search explicit_student_markers (text_v2 seg))"
proof -
  let ?ls = "split_nl content"
  from assms(1) have b: "list_all bare ?ls" by (rule segment_by_markers_Nil_bare)
  from assms have "seg \<in> set (segment_by_content grade ?ls)"
    by (simp add: smart_segment_transcript_def Let_def)
  then obtain k chunk where kc: "seg = content_segment grade (k, chunk)"
    "chunk \<in> set (content_chunks ?ls)"
    by (auto simp: segment_by_content_def in_set_enumerate_eq)
  from fallback_chunk_has_marker [OF b kc(2)]
  have m: "any_search explicit_ai_markers chunk \<or> any_search explicit_student_markers chunk" .
  have t: "text_v2 seg = chunk"
    by (simp add: kc(1) content_segment_def Let_def split: prod.splits)
  from m content_segment_role [of grade k chunk] have "confidence_v2 seg = 0.95"
    by (auto simp: kc(1) calculate_speaker_probability_def split: if_splits)
  with m t show ?thesis by simp
qed

text \<open>Without markers the marker pass never flushes: it returns one segment.\<close>

lemma marker_step_unmarked:
  assumes "unmarked line" and "segs st = []" and "current_speaker st = None"
    and "start_line st = 0"
  shows "segs (marker_step grade (i, line) st) = []
     \<and> current_speaker (marker_step grade (i, line) st) = None
     \<and> start_line (marker_step grade (i, line) st) = 0
     \<and> (current_chunk st \<noteq> [] \<or> \<not> blank line
          \<longrightarrow> current_chunk (marker_step grade (i, line) st) \<noteq> [])"
proof -
  obtain d c where dc: "detect explicit_student_markers explicit_ai_markers line = (d, c)"
    by (cases "detect explicit_student_markers explicit_ai_markers line")
  with assms(1) have "d = None" by (simp add: unmarked_def)
  with dc assms(2-4) show ?thesis by (auto simp: marker_step_def Let_def)
qed

lemma fold_marker_step_unmarked:
  "list_all unmarked ls \<Longrightarrow> segs st = [] \<Longrightarrow> current_speaker st = None \<Longrightarrow> start_line st = 0
     \<Longrightarrow> segs (fold (marker_step grade) (enumerate k ls) st) = []
       \<and> current_speaker (fold (marker_step grade) (enumerate k ls) st) = None
       \<and> start_line (fold (marker_step grade) (enumerate k ls) st) = 0
       \<and> (current_chunk st \<noteq> [] \<or> (\<exists>l\<in>set ls. \<not> blank l)
            \<longrightarrow> current_chunk (fold (marker_step grade) (enumerate k ls) st) \<noteq> [])"
proof (induction ls arbitrary: k st)
  case Nil
  then show ?case by simp
next
  case (Cons l ls)
  from Cons.prems have u: "unmarked l" "list_all unmarked ls" by simp_all
  from marker_step_unmarked [OF u(1) Cons.prems(2,3,4), of grade k]
  have s: "segs (marker_step grade (k, l) st) = []"
    "current_speaker (marker_step grade (k, l) st) = None"
    "start_line (marker_step grade (k, l) st) = 0"
    "current_chunk st \<noteq> [] \<or> \<not> blank l \<longrightarrow> current_chunk (marker_step grade (k, l) st) \<noteq> []"
    by simp_all
  from Cons.IH [OF u(2) s(1,2,3), of "Suc k"] s(4) show ?case by auto
qed

lemma segment_by_markers_unmarked:
  assumes "list_all unmarked lines" and "\<exists>l\<in>set lines. \<not> blank l"
  shows "\<exists>seg. segment_by_markers grade lines = [seg] \<and> start_line_v2 seg = 0
     \<and> end_line_v2 seg = int (length lines) - 1"
proof -
  let ?st = "fold (marker_step grade) (enumerate 0 lines) seg_init"
  from fold_marker_step_unmarked [OF assms(1), of seg_init grade 0] assms(2)
  have "segs ?st = []" "start_line ?st = 0" "current_chunk ?st \<noteq> []"
    by (simp_all add: seg_init_def)
  then show ?thesis
    by (simp add: segment_by_markers_def Let_def create_segment_fields)
qed

section \<open>The claims\<close>

text \<open>
  C1. Every analysis that an analyzer returns satisfies
  \<open>ai_words + student_words = total_words\<close>, its \<open>student_ratio\<close> lies between 0
  and 1, and the ratio is \<open>student_words / total_words\<close> when \<open>total_words > 0\<close> and
  0 otherwise. This holds for the simple and the advanced analyzer on every outcome of
  the read, and for the original analyzer whenever it returns (its read error leaves the
  function).
\<close>

theorem analysis_totals:
  "(let a = analyze_transcript grade name rd in
      ai_words a + student_words a = total_words a \<and> 0 \<le> student_ratio a \<and> student_ratio a \<le> 1
      \<and> student_ratio a = (if total_words a > 0
            then real_of_int (student_words a) / real_of_int (total_words a) else 0))
   \<and> (let a = analyze_transcript_v2 grade name rd in
      ai_words_v2 a + student_words_v2 a = total_words_v2 a
      \<and> 0 \<le> student_ratio_v2 a \<and> student_ratio_v2 a \<le> 1
      \<and> student_ratio_v2 a = (if total_words_v2 a > 0
            then real_of_int (student_words_v2 a) / real_of_int (total_words_v2 a) else 0))
   \<and> (case analyze_transcript_orig name rd of
        Inl e \<Rightarrow> rd = Inl e
      | Inr a \<Rightarrow>
          ai_words_orig a + student_words_orig a = total_words_orig a
          \<and> 0 \<le> student_ratio_orig a \<and> student_ratio_orig a \<le> 1
          \<and> student_ratio_orig a = (if total_words_orig a > 0
                then real_of_int (student_words_orig a) / real_of_int (total_words_orig a)
                else 0))"
proof -
  have "case analyze_transcript_orig name rd of
        Inl e \<Rightarrow> rd = Inl e
      | Inr a \<Rightarrow>
          ai_words_orig a + student_words_orig a = total_words_orig a
          \<and> 0 \<le> student_ratio_orig a \<and> student_ratio_orig a \<le> 1
          \<and> student_ratio_orig a = (if total_words_orig a > 0
                then real_of_int (student_words_orig a) / real_of_int (total_words_orig a)
                else 0)"
  proof (cases "analyze_transcript_orig name rd")
    case (Inl e)
    then show ?thesis by (cases rd) (simp_all add: analyze_transcript_orig_def Let_def)
  next
    case (Inr a)
    with analyze_transcript_orig_totals [OF Inr] show ?thesis by simp
  qed
  with analyze_transcript_totals [of grade name rd] analyze_transcript_v2_totals [of grade name rd]
  show ?thesis by (simp add: Let_def)
qed

theorem analysis_totals_witness:
  "total_words (analyze_transcript (\<lambda>t. None) ''t.txt'' (Inr scenario)) = 5
   \<and> ai_words (analyze_transcript (\<lambda>t. None) ''t.txt'' (Inr scenario))
     + student_words (analyze_transcript (\<lambda>t. None) ''t.txt'' (Inr scenario)) = 5
   \<and> student_ratio (analyze_transcript (\<lambda>t. None) ''t.txt'' (Inr scenario)) \<le> 1"
proof -
  have "total_words (analyze_transcript (\<lambda>t. None) ''t.txt'' (Inr scenario)) = 5"
    by code_simp
  with analysis_totals [of "\<lambda>t. None" "''t.txt''" "Inr scenario"] show ?thesis
    by (simp add: Let_def)
qed

text \<open>
  C2, as amended. In the simple analyzer and in the marker pass of the advanced analyzer
  the segments are ordered and pairwise disjoint: each range satisfies
  \<open>0 \<le> start \<le> end < line_count\<close>, and each segment starts after the previous one
  ends, so a line index lies in at most one range. A line may lie in none. The content
  fallback of the advanced analyzer numbers its chunks instead: chunk \<open>k\<close> gets the
  range from \<open>10 k\<close> to \<open>10 (k + 1)\<close>.
\<close>

theorem segment_ranges:
  "(let sgs = segment_transcript grade content; n = int (length (split_nl content)) in
      (\<forall>seg\<in>set sgs. 0 \<le> line_start seg \<and> line_start seg \<le> line_end seg \<and> line_end seg < n)
      \<and> sorted_wrt (\<lambda>a b. line_end a < line_start b) sgs
      \<and> (\<forall>i j k. j < length sgs \<and> k < length sgs
            \<and> line_start (sgs ! j) \<le> i \<and> i \<le> line_end (sgs ! j)
            \<and> line_start (sgs ! k) \<le> i \<and> i \<le> line_end (sgs ! k) \<longrightarrow> j = k))
   \<and> (let sgs = segment_by_markers grade lines; n = int (length lines) in
      (\<forall>seg\<in>set sgs. 0 \<le> start_line_v2 seg \<and> start_line_v2 seg \<le> end_line_v2 seg
                       \<and> end_line_v2 seg < n)
      \<and> sorted_wrt (\<lambda>a b. end_line_v2 a < start_line_v2 b) sgs
      \<and> (\<forall>i j k. j < length sgs \<and> k < length sgs
            \<and> start_line_v2 (sgs ! j) \<le> i \<and> i \<le> end_line_v2 (sgs ! j)
            \<and> start_line_v2 (sgs ! k) \<le> i \<and> i \<le> end_line_v2 (sgs ! k) \<longrightarrow> j = k))
   \<and> (\<forall>k < length (content_chunks lines).
        start_line_v2 (segment_by_content grade lines ! k) = 10 * int k
        \<and> end_line_v2 (segment_by_content grade lines ! k) = 10 * (int k + 1))"
proof -
  let ?s = "segment_transcript grade content"
  let ?m = "segment_by_markers grade lines"
  have s1: "\<forall>seg\<in>set ?s. 0 \<le> line_start seg \<and> line_start seg \<le> line_end seg
              \<and> line_end seg < int (length (split_nl content))"
    and s2: "sorted_wrt (\<lambda>a b. line_end a < line_start b) ?s"
    using segment_transcript_ok [of content grade]
    by (simp_all add: ranges_ok_def seg_ok_def list_all_iff)
  have s3: "\<forall>i j k. j < length ?s \<and> k < length ?s
            \<and> line_start (?s ! j) \<le> i \<and> i \<le> line_end (?s ! j)
            \<and> line_start (?s ! k) \<le> i \<and> i \<le> line_end (?s ! k) \<longrightarrow> j = k"
    using sorted_ranges_unique [OF s2] by blast
  have m1: "\<forall>seg\<in>set ?m. 0 \<le> start_line_v2 seg \<and> start_line_v2 seg \<le> end_line_v2 seg
              \<and> end_line_v2 seg < int (length lines)"
    and m2: "sorted_wrt (\<lambda>a b. end_line_v2 a < start_line_v2 b) ?m"
    using segment_by_markers_ok [of lines grade]
    by (simp_all add: ranges_ok_v2_def list_all_iff)
  have m3: "\<forall>i j k. j < length ?m \<and> k < length ?m
            \<and> start_line_v2 (?m ! j) \<le> i \<and> i \<le> end_line_v2 (?m ! j)
            \<and> start_line_v2 (?m ! k) \<le> i \<and> i \<le> end_line_v2 (?m ! k) \<longrightarrow> j = k"
    using sorted_ranges_unique [OF m2] by blast
  from s1 s2 s3 m1 m2 m3 segment_by_content_ranges [of _ lines grade]
  show ?thesis by (simp add: Let_def)
qed

theorem segment_ranges_witness:
  "map (\<lambda>s. (line_start s, line_end s)) (segment_transcript (\<lambda>t. None) scenario)
     = [(0, 0), (1, 1)]
   \<and> sorted_wrt (\<lambda>a b. line_end a < line_start b) (segment_transcript (\<lambda>t. None) scenario)"
proof -
  have "map (\<lambda>s. (line_start s, line_end s)) (segment_transcript (\<lambda>t. None) scenario)
     = [(0, 0), (1, 1)]"
    by code_simp
  with segment_ranges [of "\<lambda>t. None" scenario "[]"] show ?thesis
    by (simp add: Let_def)
qed

text \<open>
  C2 as stated fails: in the two-line transcript \<open>marker_only\<close> the first line holds
  only a marker, its chunk stays empty and no segment covers line 0.
\<close>

theorem segment_ranges_counterexample:
  "\<not> (\<forall>i < length (split_nl marker_only).
        \<exists>!seg. seg \<in> set (segment_transcript (\<lambda>t. None) marker_only)
               \<and> line_start seg \<le> int i \<and> int i \<le> line_end seg)"
proof
  assume a: "\<forall>i < length (split_nl marker_only).
        \<exists>!seg. seg \<in> set (segment_transcript (\<lambda>t. None) marker_only)
               \<and> line_start seg \<le> int i \<and> int i \<le> line_end seg"
  from marker_only_ranges have "0 < length (split_nl marker_only)" by simp
  with a obtain seg where seg: "seg \<in> set (segment_transcript (\<lambda>t. None) marker_only)"
    "line_start seg \<le> 0" by fastforce
  from marker_only_ranges
  have "\<forall>x\<in>set (map (\<lambda>s. (line_start s, line_end s)) (segment_transcript (\<lambda>t. None) marker_only)).
          fst x = 1" by simp
  with seg(1) have "line_start seg = 1" by auto
  with seg(2) show False by simp
qed

text \<open>
  C3. A marker match decides the role before any scoring. In the classifiers, a text in
  which a marker pattern matches gets the role of the first table that matches (student
  markers first in the simple analyzer, AI markers first in the advanced one) with
  confidence 0.95, whatever the readability grader or the features say. In the
  segmenters, a line whose marker differs from the open segment's speaker makes the
  marker's role the current speaker, and a chunk flushed with a current speaker gets
  that role with confidence 0.9, whatever its text. Every returned segment got its role
  in one of these two ways.
\<close>

theorem marker_overrides_scoring:
  "(any_search student_markers text \<longrightarrow> classify_speaker grade text = (Student, 0.95))
   \<and> (\<not> any_search student_markers text \<and> any_search ai_markers text
        \<longrightarrow> classify_speaker grade text = (AI, 0.95))
   \<and> (any_search explicit_ai_markers text
        \<longrightarrow> calculate_speaker_probability text fo = (AI, 0.95))
   \<and> (\<not> any_search explicit_ai_markers text \<and> any_search explicit_student_markers text
        \<longrightarrow> calculate_speaker_probability text fo = (Student, 0.95))
   \<and> (\<forall>seg. flush grade sgs chunk (Some r) a b = sgs @ [seg]
        \<longrightarrow> speaker seg = r \<and> confidence seg = 0.9)
   \<and> speaker_prediction (create_segment grade chunk (Some r) a b) = r
   \<and> confidence_v2 (create_segment grade chunk (Some r) a b) = 0.9
   \<and> (\<not> blank line \<and> detect student_markers ai_markers line = (Some r, c)
        \<and> current_speaker st \<noteq> Some r
        \<longrightarrow> current_speaker (seg_step grade (i, line) st) = Some r)
   \<and> (\<not> blank line \<and> detect explicit_student_markers explicit_ai_markers line = (Some r, c)
        \<and> current_speaker st2 \<noteq> Some r
        \<longrightarrow> current_speaker (marker_step grade (i, line) st2) = Some r)
   \<and> (\<forall>seg\<in>set (segment_transcript grade content).
        confidence seg = 0.9
        \<or> (speaker seg, confidence seg) = classify_speaker grade (seg_text seg))
   \<and> (\<forall>seg\<in>set (smart_segment_transcript grade content).
        confidence_v2 seg = 0.9
        \<or> (speaker_prediction seg, confidence_v2 seg)
             = calculate_speaker_probability (text_v2 seg)
                 (extract_features grade (text_v2 seg)))"
proof -
  have 9: "\<forall>seg\<in>set (segment_transcript grade content).
        confidence seg = 0.9
        \<or> (speaker seg, confidence seg) = classify_speaker grade (seg_text seg)"
    using segment_transcript_labelled [of grade content]
    by (simp add: list_all_iff labelled_def)
  have 10: "\<forall>seg\<in>set (smart_segment_transcript grade content).
        confidence_v2 seg = 0.9
        \<or> (speaker_prediction seg, confidence_v2 seg)
             = calculate_speaker_probability (text_v2 seg)
                 (extract_features grade (text_v2 seg))"
    using smart_segment_transcript_labelled [of grade content]
    by (simp add: list_all_iff labelled_v2_def)
  have 1: "any_search student_markers text \<longrightarrow> classify_speaker grade text = (Student, 0.95)"
    using classify_speaker_student_marker by blast
  have 2: "\<not> any_search student_markers text \<and> any_search ai_markers text
        \<longrightarrow> classify_speaker grade text = (AI, 0.95)"
    using classify_speaker_ai_marker by blast
  have 3: "any_search explicit_ai_markers text
        \<longrightarrow> calculate_speaker_probability text fo = (AI, 0.95)"
    by (simp add: calculate_speaker_probability_def)
  have 4: "\<not> any_search explicit_ai_markers text \<and> any_search explicit_student_markers text
        \<longrightarrow> calculate_speaker_probability text fo = (Student, 0.95)"
    by (simp add: calculate_speaker_probability_def)
  have 5: "\<forall>seg. flush grade sgs chunk (Some r) a b = sgs @ [seg]
        \<longrightarrow> speaker seg = r \<and> confidence seg = 0.9"
    using flush_cases [of grade sgs chunk "Some r" a b] by auto
  have 6: "speaker_prediction (create_segment grade chunk (Some r) a b) = r
     \<and> confidence_v2 (create_segment grade chunk (Some r) a b) = 0.9"
    using create_segment_role [of grade chunk "Some r" a b] by simp
  have 7: "\<not> blank line \<and> detect student_markers ai_markers line = (Some r, c)
        \<and> current_speaker st \<noteq> Some r
        \<longrightarrow> current_speaker (seg_step grade (i, line) st) = Some r"
    by (auto simp: seg_step_def Let_def)
  have 8: "\<not> blank line \<and> detect explicit_student_markers explicit_ai_markers line = (Some r, c)
        \<and> current_speaker st2 \<noteq> Some r
        \<longrightarrow> current_speaker (marker_step grade (i, line) st2) = Some r"
    by (auto simp: marker_step_def Let_def)
  from 1 2 3 4 5 6 7 8 9 10 show ?thesis by blast
qed

theorem marker_overrides_scoring_witness:
  "content_score (\<lambda>t. None) tagged_question = - 95 / 100
   \<and> fst (decide (content_score (\<lambda>t. None) tagged_question)) = Student
   \<and> classify_speaker (\<lambda>t. None) tagged_question = (AI, 0.95)"
proof -
  have s: "content_score (\<lambda>t. None) tagged_question = - 95 / 100" by code_simp
  have m: "\<not> any_search student_markers tagged_question \<and> any_search ai_markers tagged_question"
    by code_simp
  from s have "fst (decide (content_score (\<lambda>t. None) tagged_question)) = Student"
    by (simp add: decide_eq)
  with s m marker_overrides_scoring [of tagged_question "\<lambda>t. None"] show ?thesis
    by simp
qed

text \<open>
  C4, as amended. In the simple and the advanced analyzer a text that carries no marker
  is classified from \<open>p\<close>, the logistic function of its additive score:
  \<open>0 < p < 1\<close>, the role is AI exactly when \<open>p > 0.5\<close>, and the confidence is
  \<open>max p (1 - p)\<close>. The original analyzer uses no logistic function: its probability
  is the score, which starts at 0.5, clamped to the interval from 0 to 1 (both ends can
  be reached); the role is AI exactly when \<open>p > 0.5\<close> and the confidence is
  \<open>2 |p - 0.5|\<close>.
\<close>

theorem unmarked_classification:
  "(\<not> blank text \<and> \<not> any_search student_markers text \<and> \<not> any_search ai_markers text
      \<longrightarrow> (let p = sigmoid (content_score grade text) in
            0 < p \<and> p < 1
            \<and> classify_speaker grade text = (if p > 1 / 2 then AI else Student, max p (1 - p))))
   \<and> (\<not> any_search explicit_ai_markers text \<and> \<not> any_search explicit_student_markers text
      \<longrightarrow> (let p = sigmoid (content_score_v2 text fo) in
            0 < p \<and> p < 1
            \<and> calculate_speaker_probability text fo
                = (if p > 1 / 2 then AI else Student, max p (1 - p))))
   \<and> (\<forall>seg. flush_orig sgs chunk None a b = sgs @ [seg]
      \<longrightarrow> (let p = calculate_ai_probability (join_nl chunk) in
            p = max 0 (min 1 (raw_score (join_nl chunk))) \<and> 0 \<le> p \<and> p \<le> 1
            \<and> speaker seg = (if p > 1 / 2 then AI else Student)
            \<and> confidence seg = \<bar>p - 1 / 2\<bar> * 2))"
proof -
  have 1: "\<not> blank text \<and> \<not> any_search student_markers text \<and> \<not> any_search ai_markers text
      \<longrightarrow> (let p = sigmoid (content_score grade text) in
            0 < p \<and> p < 1
            \<and> classify_speaker grade text = (if p > 1 / 2 then AI else Student, max p (1 - p)))"
    using sigmoid_bounds [of "content_score grade text"]
    by (simp add: classify_speaker_content decide_form Let_def)
  have 2: "\<not> any_search explicit_ai_markers text \<and> \<not> any_search explicit_student_markers text
      \<longrightarrow> (let p = sigmoid (content_score_v2 text fo) in
            0 < p \<and> p < 1
            \<and> calculate_speaker_probability text fo
                = (if p > 1 / 2 then AI else Student, max p (1 - p)))"
    using sigmoid_bounds [of "content_score_v2 text fo"]
    by (simp add: calculate_speaker_probability_def decide_form Let_def)
  have 3: "\<forall>seg. flush_orig sgs chunk None a b = sgs @ [seg]
      \<longrightarrow> (let p = calculate_ai_probability (join_nl chunk) in
            p = max 0 (min 1 (raw_score (join_nl chunk))) \<and> 0 \<le> p \<and> p \<le> 1
            \<and> speaker seg = (if p > 1 / 2 then AI else Student)
            \<and> confidence seg = \<bar>p - 1 / 2\<bar> * 2)"
    using flush_orig_cases [of sgs chunk None a b]
    by (auto simp: Let_def calculate_ai_probability_def)
  from 1 2 3 show ?thesis by blast
qed

theorem unmarked_classification_witness:
  "content_score (\<lambda>t. None) ''hi there'' = - 35 / 100
   \<and> classify_speaker (\<lambda>t. None) ''hi there''
       = (Student, max (sigmoid (- 35 / 100)) (1 - sigmoid (- 35 / 100)))"
proof -
  have s: "content_score (\<lambda>t. None) ''hi there'' = - 35 / 100" by code_simp
  have h: "\<not> blank ''hi there'' \<and> \<not> any_search student_markers ''hi there''
     \<and> \<not> any_search ai_markers ''hi there''"
    by code_simp
  have "\<not> sigmoid (- 35 / 100) > 1 / 2" using sigmoid_half [of "- 35 / 100"] by simp
  with s h unmarked_classification [of "''hi there''" "\<lambda>t. None"] show ?thesis
    by (simp add: Let_def)
qed

text \<open>
  C4 as stated fails for the original analyzer: the one-word text \<open>hi\<close> has the clamped
  score 0.4 and the confidence 0.2, which is not \<open>max p (1 - p) = 0.6\<close>.
\<close>

theorem unmarked_classification_counterexample:
  "map (\<lambda>s. (speaker s, confidence s)) (segment_transcript_orig ''hi'') = [(Student, 1 / 5)]
   \<and> calculate_ai_probability ''hi'' = 2 / 5
   \<and> \<not> (confidence (hd (segment_transcript_orig ''hi''))
          = max (calculate_ai_probability ''hi'') (1 - calculate_ai_probability ''hi''))"
  by code_simp

text \<open>
  C5. Every segment that a segmenter returns has a positive word count, and a flushed
  chunk whose word count is zero adds nothing to the output. (In the advanced analyzer no
  such chunk is ever flushed: an open chunk starts with a line that is not blank, so it
  holds at least one whitespace-separated token.)
\<close>

theorem returned_segments_have_words:
  "(\<forall>seg\<in>set (segment_transcript grade content). 0 < word_count seg)
   \<and> (\<forall>seg\<in>set (smart_segment_transcript grade content). 0 < word_count_v2 seg)
   \<and> (\<forall>seg\<in>set (segment_transcript_orig content). 0 < word_count seg)
   \<and> (count_words (join_nl chunk) = 0 \<longrightarrow> flush grade sgs chunk spk a b = sgs)
   \<and> (count_words_orig (join_nl chunk) = 0 \<longrightarrow> flush_orig sgs chunk spk a b = sgs)"
proof -
  have "\<forall>seg\<in>set (segment_transcript grade content). 0 < word_count seg"
    using segment_transcript_pos [of grade content] by (simp add: list_all_iff)
  moreover have "\<forall>seg\<in>set (smart_segment_transcript grade content). 0 < word_count_v2 seg"
    using smart_segment_transcript_ok [of grade content] by (simp add: list_all_iff seg_ok_v2_def)
  moreover have "\<forall>seg\<in>set (segment_transcript_orig content). 0 < word_count seg"
    using segment_transcript_orig_pos [of content] by (simp add: list_all_iff)
  moreover have "count_words (join_nl chunk) = 0 \<longrightarrow> flush grade sgs chunk spk a b = sgs"
    by (simp add: flush_def Let_def split: prod.splits)
  moreover have "count_words_orig (join_nl chunk) = 0 \<longrightarrow> flush_orig sgs chunk spk a b = sgs"
    by (simp add: flush_orig_def Let_def)
  ultimately show ?thesis by blast
qed

theorem returned_segments_have_words_witness:
  "map (\<lambda>s. (seg_text s, speaker s)) (segment_transcript (\<lambda>t. None) marker_only)
     = [(''hi'', Student)]
   \<and> 0 < word_count (hd (segment_transcript (\<lambda>t. None) marker_only))
   \<and> flush (\<lambda>t. None) [] [''===''] (Some AI) 0 0 = []"
proof -
  have ev: "map (\<lambda>s. (seg_text s, speaker s)) (segment_transcript (\<lambda>t. None) marker_only)
     = [(''hi'', Student)]"
    by code_simp
  then have "hd (segment_transcript (\<lambda>t. None) marker_only)
     \<in> set (segment_transcript (\<lambda>t. None) marker_only)"
    by (cases "segment_transcript (\<lambda>t. None) marker_only") simp_all
  moreover have z: "count_words (join_nl [''==='']) = 0" by code_simp
  ultimately show ?thesis
    using ev returned_segments_have_words [of "\<lambda>t. None" marker_only "[''==='']" "[]" "Some AI" 0 0]
    by blast
qed

text \<open>
  C6. The claim describes the fallback that the comments of the advanced analyzer
  announce: content-based segmentation when the marker pass finds nothing, chunks of a
  minimum size, each chunk scored on its content. The code does not behave so. Its
  marker pass appends every line without a marker to the open chunk and flushes that
  chunk, so a transcript without markers comes back as one segment from line 0 to the
  last line, and the fallback does not run. The marker pass returns nothing only when
  every line is blank or a marker with nothing after it; every chunk of the fallback
  then contains a marker and is labelled by the marker lookup with confidence 0.95,
  never by its content score. On the one-line transcript \<open>AI:\<close> the fallback returns
  that line as a chunk of its own, labelled AI, although its content score is negative.
\<close>

theorem fallback_runs_on_bare_markers:
  "segment_by_markers (\<lambda>t. None) (split_nl ''AI:'') = []
   \<and> map (\<lambda>s. (text_v2 s, speaker_prediction s, confidence_v2 s))
        (smart_segment_transcript (\<lambda>t. None) ''AI:'') = [(''AI:'', AI, 0.95)]
   \<and> content_score_v2 ''AI:'' (extract_features (\<lambda>t. None) ''AI:'') = - 1 / 10
   \<and> fst (decide (content_score_v2 ''AI:'' (extract_features (\<lambda>t. None) ''AI:''))) = Student
   \<and> (segment_by_markers grade lines = [] \<longrightarrow> list_all bare lines)
   \<and> (segment_by_markers grade (split_nl content) = [] \<longrightarrow>
        (\<forall>seg\<in>set (smart_segment_transcript grade content).
           confidence_v2 seg = 0.95
           \<and> (any_search explicit_ai_markers (text_v2 seg)
               \<or> any_search explicit_student_markers (text_v2 seg))))
   \<and> (list_all unmarked lines \<and> (\<exists>l\<in>set lines. \<not> blank l) \<longrightarrow>
        (\<exists>seg. segment_by_markers grade lines = [seg] \<and> start_line_v2 seg = 0
               \<and> end_line_v2 seg = int (length lines) - 1))
   \<and> (list_all unmarked (split_nl content) \<and> (\<exists>l\<in>set (split_nl content). \<not> blank l) \<longrightarrow>
        (\<exists>seg. smart_segment_transcript grade content = [seg] \<and> start_line_v2 seg = 0
               \<and> end_line_v2 seg = int (length (split_nl content)) - 1))"
proof -
  have 1: "segment_by_markers (\<lambda>t. None) (split_nl ''AI:'') = []
   \<and> map (\<lambda>s. (text_v2 s, speaker_prediction s, confidence_v2 s))
        (smart_segment_transcript (\<lambda>t. None) ''AI:'') = [(''AI:'', AI, 0.95)]"
    by code_simp
  have 2: "content_score_v2 ''AI:'' (extract_features (\<lambda>t. None) ''AI:'') = - 1 / 10"
    by code_simp
  then have 3: "fst (decide (content_score_v2 ''AI:'' (extract_features (\<lambda>t. None) ''AI:''))) = Student"
    by (simp add: decide_eq)
  have 4: "segment_by_markers grade lines = [] \<longrightarrow> list_all bare lines"
    using segment_by_markers_Nil_bare by blast
  have 5: "segment_by_markers grade (split_nl content) = [] \<longrightarrow>
        (\<forall>seg\<in>set (smart_segment_transcript grade content).
           confidence_v2 seg = 0.95
           \<and> (any_search explicit_ai_markers (text_v2 seg)
               \<or> any_search explicit_student_markers (text_v2 seg)))"
    using fallback_labels_by_marker by blast
  have 6: "list_all unmarked lines \<and> (\<exists>l\<in>set lines. \<not> blank l) \<longrightarrow>
        (\<exists>seg. segment_by_markers grade lines = [seg] \<and> start_line_v2 seg = 0
               \<and> end_line_v2 seg = int (length lines) - 1)"
    using segment_by_markers_unmarked by blast
  have 7: "list_all unmarked (split_nl content) \<and> (\<exists>l\<in>set (split_nl content). \<not> blank l) \<longrightarrow>
        (\<exists>seg. smart_segment_transcript grade content = [seg] \<and> start_line_v2 seg = 0
               \<and> end_line_v2 seg = int (length (split_nl content)) - 1)"
  proof
    assume "list_all unmarked (split_nl content) \<and> (\<exists>l\<in>set (split_nl content). \<not> blank l)"
    then obtain seg where "segment_by_markers grade (split_nl content) = [seg]"
      "start_line_v2 seg = 0" "end_line_v2 seg = int (length (split_nl content)) - 1"
      using segment_by_markers_unmarked [of "split_nl content" grade] by blast
    then show "\<exists>seg. smart_segment_transcript grade content = [seg] \<and> start_line_v2 seg = 0
               \<and> end_line_v2 seg = int (length (split_nl content)) - 1"
      by (simp add: smart_segment_transcript_def Let_def)
  qed
  from 1 2 3 4 5 6 7 show ?thesis by blast
qed

theorem fallback_runs_on_bare_markers_witness:
  "map (\<lambda>s. (text_v2 s, speaker_prediction s, confidence_v2 s))
     (smart_segment_transcript (\<lambda>t. None) bare_markers)
     = [(''AI:'' @ [newline] @ ''Student:'' @ [newline] @ ''AI:'', AI, 0.95),
        (''Student:'', Student, 0.95)]
   \<and> list_all bare (split_nl bare_markers)
   \<and> list_all (\<lambda>seg. confidence_v2 seg = 0.95
                       \<and> (any_search explicit_ai_markers (text_v2 seg)
                           \<or> any_search explicit_student_markers (text_v2 seg)))
        (smart_segment_transcript (\<lambda>t. None) bare_markers)
   \<and> map (\<lambda>s. (start_line_v2 s, end_line_v2 s))
       (smart_segment_transcript (\<lambda>t. None) no_markers) = [(0, 4)]
   \<and> content_chunks (split_nl no_markers)
       = [''a'' @ [newline] @ ''b'' @ [newline] @ ''c'', ''d'']"
proof -
  have h1: "segment_by_markers (\<lambda>t. None) (split_nl bare_markers) = []" by code_simp
  have e1: "map (\<lambda>s. (text_v2 s, speaker_prediction s, confidence_v2 s))
     (smart_segment_transcript (\<lambda>t. None) bare_markers)
     = [(''AI:'' @ [newline] @ ''Student:'' @ [newline] @ ''AI:'', AI, 0.95),
        (''Student:'', Student, 0.95)]"
    by code_simp
  have h2: "list_all unmarked (split_nl no_markers) \<and> (\<exists>l\<in>set (split_nl no_markers). \<not> blank l)"
    by code_simp
  have n: "int (length (split_nl no_markers)) - 1 = 4" by code_simp
  have e3: "content_chunks (split_nl no_markers)
       = [''a'' @ [newline] @ ''b'' @ [newline] @ ''c'', ''d'']"
    by code_simp
  from h1 fallback_runs_on_bare_markers [of "\<lambda>t. None" "split_nl bare_markers" bare_markers]
  have b: "list_all bare (split_nl bare_markers)"
    and c: "list_all (\<lambda>seg. confidence_v2 seg = 0.95
                       \<and> (any_search explicit_ai_markers (text_v2 seg)
                           \<or> any_search explicit_student_markers (text_v2 seg)))
        (smart_segment_transcript (\<lambda>t. None) bare_markers)"
    unfolding list_all_iff by blast+
  from h2 fallback_runs_on_bare_markers [of "\<lambda>t. None" _ no_markers]
  obtain seg where "smart_segment_transcript (\<lambda>t. None) no_markers = [seg]"
    "start_line_v2 seg = 0" "end_line_v2 seg = int (length (split_nl no_markers)) - 1"
    by blast
  with n have "map (\<lambda>s. (start_line_v2 s, end_line_v2 s))
       (smart_segment_transcript (\<lambda>t. None) no_markers) = [(0, 4)]"
    by simp
  with e1 b c e3 show ?thesis by blast
qed

text \<open>
  C7, as amended. On the scenario transcript both analyzers produce exactly two segments,
  the first attributed to the student and the second to the AI. The simple analyzer counts
  alphabetic words only, so the segments have 2 and 3 words and the student ratio is
  2/5; the advanced analyzer counts whitespace-separated tokens, so the segments have 3
  and 4 words and the ratio is 3/7. The result does not depend on the readability grader.
\<close>

theorem scenario_segments:
  "map (\<lambda>s. (speaker s, word_count s)) (segment_transcript grade scenario)
     = [(Student, 2), (AI, 3)]
   \<and> student_ratio (analyze_transcript grade name (Inr scenario)) = 2 / 5
   \<and> map (\<lambda>s. (speaker_prediction s, word_count_v2 s)) (smart_segment_transcript grade scenario)
     = [(Student, 3), (AI, 4)]
   \<and> student_ratio_v2 (analyze_transcript_v2 grade name (Inr scenario)) = 3 / 7"
  by code_simp

theorem scenario_segments_witness:
  "map (\<lambda>s. (speaker s, word_count s)) (segment_transcript (\<lambda>t. None) scenario)
     = [(Student, 2), (AI, 3)]
   \<and> student_ratio_v2 (analyze_transcript_v2 (\<lambda>t. None) ''t.txt'' (Inr scenario)) = 3 / 7"
  using scenario_segments [of "\<lambda>t. None" "''t.txt''"] by simp

text \<open>
  C7 as stated (word counts 4 and 4, student ratio 0.5) fails for both analyzers.
\<close>

theorem scenario_segments_counterexample:
  "\<not> (map (\<lambda>s. (speaker s, word_count s)) (segment_transcript (\<lambda>t. None) scenario)
        = [(Student, 4), (AI, 4)]
      \<and> student_ratio (analyze_transcript (\<lambda>t. None) ''t.txt'' (Inr scenario)) = 1 / 2)
   \<and> \<not> (map (\<lambda>s. (speaker_prediction s, word_count_v2 s))
          (smart_segment_transcript (\<lambda>t. None) scenario) = [(Student, 4), (AI, 4)]
      \<and> student_ratio_v2 (analyze_transcript_v2 (\<lambda>t. None) ''t.txt'' (Inr scenario)) = 1 / 2)"
  by code_simp

text \<open>
  C8. When the read fails, and when the content is empty or only whitespace, the simple
  and the advanced analyzer return an analysis with no segments, all three word totals
  0, ratio 0 and confidence 0, flagged with the read error or with \<open>Empty file\<close>.
  They return an analysis on every input, so the batch loops give one result per file,
  each computed from that file alone: a failed file is followed by the analyses of the
  remaining files.
\<close>

theorem failed_read_and_empty:
  "analyze_transcript grade name (Inl e)
     = \<lparr>filename = name, segments = [], ai_words = 0, student_words = 0, total_words = 0,
        student_ratio = 0, confidence_score = 0, quality_flags = [''Read error: '' @ e]\<rparr>
   \<and> (blank content \<longrightarrow> analyze_transcript grade name (Inr content)
     = \<lparr>filename = name, segments = [], ai_words = 0, student_words = 0, total_words = 0,
        student_ratio = 0, confidence_score = 0, quality_flags = [''Empty file'']\<rparr>)
   \<and> analyze_transcript_v2 grade name (Inl e)
     = \<lparr>filename_v2 = name, segments_v2 = [], ai_words_v2 = 0, student_words_v2 = 0,
        total_words_v2 = 0, student_ratio_v2 = 0, confidence_score_v2 = 0,
        parsing_method = ''error'', quality_flags_v2 = [''Read error: '' @ e]\<rparr>
   \<and> (blank content \<longrightarrow> analyze_transcript_v2 grade name (Inr content)
     = \<lparr>filename_v2 = name, segments_v2 = [], ai_words_v2 = 0, student_words_v2 = 0,
        total_words_v2 = 0, student_ratio_v2 = 0, confidence_score_v2 = 0,
        parsing_method = ''empty'', quality_flags_v2 = [''Empty file'']\<rparr>)
   \<and> length (analyze_batch grade files) = length files
   \<and> (\<forall>k < length files. analyze_batch grade files ! k
        = analyze_transcript grade (fst (files ! k)) (snd (files ! k)))
   \<and> analyze_batch grade (before @ [(name, Inl e)] @ after)
     = analyze_batch grade before @ [analyze_transcript grade name (Inl e)]
       @ analyze_batch grade after
   \<and> length (run_cli grade files) = length files
   \<and> (\<forall>k < length files. run_cli grade files ! k
        = analyze_transcript_v2 grade (fst (files ! k)) (snd (files ! k)))
   \<and> run_cli grade (before @ [(name, Inl e)] @ after)
     = run_cli grade before @ [analyze_transcript_v2 grade name (Inl e)] @ run_cli grade after"
proof -
  have 1: "analyze_transcript grade name (Inl e)
     = \<lparr>filename = name, segments = [], ai_words = 0, student_words = 0, total_words = 0,
        student_ratio = 0, confidence_score = 0, quality_flags = [''Read error: '' @ e]\<rparr>"
    by (simp add: analyze_transcript_def)
  have 2: "blank content \<longrightarrow> analyze_transcript grade name (Inr content)
     = \<lparr>filename = name, segments = [], ai_words = 0, student_words = 0, total_words = 0,
        student_ratio = 0, confidence_score = 0, quality_flags = [''Empty file'']\<rparr>"
    by (simp add: analyze_transcript_def)
  have 3: "analyze_transcript_v2 grade name (Inl e)
     = \<lparr>filename_v2 = name, segments_v2 = [], ai_words_v2 = 0, student_words_v2 = 0,
        total_words_v2 = 0, student_ratio_v2 = 0, confidence_score_v2 = 0,
        parsing_method = ''error'', quality_flags_v2 = [''Read error: '' @ e]\<rparr>"
    by (simp add: analyze_transcript_v2_def)
  have 4: "blank content \<longrightarrow> analyze_transcript_v2 grade name (Inr content)
     = \<lparr>filename_v2 = name, segments_v2 = [], ai_words_v2 = 0, student_words_v2 = 0,
        total_words_v2 = 0, student_ratio_v2 = 0, confidence_score_v2 = 0,
        parsing_method = ''empty'', quality_flags_v2 = [''Empty file'']\<rparr>"
    by (simp add: analyze_transcript_v2_def)
  have 5: "length (analyze_batch grade files) = length files
   \<and> (\<forall>k < length files. analyze_batch grade files ! k
        = analyze_transcript grade (fst (files ! k)) (snd (files ! k)))
   \<and> analyze_batch grade (before @ [(name, Inl e)] @ after)
     = analyze_batch grade before @ [analyze_transcript grade name (Inl e)]
       @ analyze_batch grade after"
    by (simp add: analyze_batch_def case_prod_beta)
  have 6: "length (run_cli grade files) = length files
   \<and> (\<forall>k < length files. run_cli grade files ! k
        = analyze_transcript_v2 grade (fst (files ! k)) (snd (files ! k)))
   \<and> run_cli grade (before @ [(name, Inl e)] @ after)
     = run_cli grade before @ [analyze_transcript_v2 grade name (Inl e)] @ run_cli grade after"
    by (simp add: run_cli_def case_prod_beta)
  from 1 2 3 4 5 6 show ?thesis by blast
qed

theorem failed_read_and_empty_witness:
  "analyze_transcript (\<lambda>t. None) ''t.txt'' (Inr ''   '')
     = \<lparr>filename = ''t.txt'', segments = [], ai_words = 0, student_words = 0, total_words = 0,
        student_ratio = 0, confidence_score = 0, quality_flags = [''Empty file'']\<rparr>
   \<and> map total_words (analyze_batch (\<lambda>t. None)
        [(''a.txt'', Inl ''denied''), (''b.txt'', Inr scenario)]) = [0, 5]"
proof -
  have b: "blank ''   ''" by code_simp
  have t: "total_words (analyze_transcript (\<lambda>t. None) ''b.txt'' (Inr scenario)) = 5"
    by code_simp
  from failed_read_and_empty [of "\<lambda>t. None" "''a.txt''" "''denied''" _ "[]" "[]"
      "[(''b.txt'', Inr scenario)]"]
  have "analyze_batch (\<lambda>t. None) [(''a.txt'', Inl ''denied''), (''b.txt'', Inr scenario)]
     = [analyze_transcript (\<lambda>t. None) ''a.txt'' (Inl ''denied'')]
       @ analyze_batch (\<lambda>t. None) [(''b.txt'', Inr scenario)]"
    by (simp add: analyze_batch_def)
  moreover have "total_words (analyze_transcript (\<lambda>t. None) ''a.txt'' (Inl ''denied'')) = 0"
    using failed_read_and_empty [of "\<lambda>t. None" "''a.txt''" "''denied''"] by simp
  ultimately have "map total_words (analyze_batch (\<lambda>t. None)
        [(''a.txt'', Inl ''denied''), (''b.txt'', Inr scenario)]) = [0, 5]"
    using t by (simp add: analyze_batch_def)
  with b failed_read_and_empty [of "\<lambda>t. None" "''t.txt''" _ "''   ''"] show ?thesis by simp
qed

text \<open>
  C9. The content classifiers of the simple and the advanced analyzer return a
  confidence of at least 0.5 and below 1 on every text: 0.95 on a marker hit, 0.5 on
  blank text, and \<open>max p (1 - p)\<close> with \<open>0 < p < 1\<close> on the scoring path. So the mean
  confidence of an analysis with at least one segment is at least 0.5.
\<close>

theorem confidence_range:
  "1 / 2 \<le> snd (classify_speaker grade text) \<and> snd (classify_speaker grade text) < 1
   \<and> (any_search student_markers text \<or> any_search ai_markers text
        \<longrightarrow> snd (classify_speaker grade text) = 0.95)
   \<and> (blank text \<longrightarrow> snd (classify_speaker grade text) = 0.5)
   \<and> (\<not> blank text \<and> \<not> any_search student_markers text \<and> \<not> any_search ai_markers text
        \<longrightarrow> (let p = sigmoid (content_score grade text) in
              0 < p \<and> p < 1 \<and> snd (classify_speaker grade text) = max p (1 - p)))
   \<and> 1 / 2 \<le> snd (calculate_speaker_probability text fo)
   \<and> snd (calculate_speaker_probability text fo) < 1
   \<and> (any_search explicit_ai_markers text \<or> any_search explicit_student_markers text
        \<longrightarrow> snd (calculate_speaker_probability text fo) = 0.95)
   \<and> (blank text
        \<longrightarrow> snd (calculate_speaker_probability text (extract_features grade text)) = 0.5)
   \<and> (\<not> any_search explicit_ai_markers text \<and> \<not> any_search explicit_student_markers text
        \<longrightarrow> (let p = sigmoid (content_score_v2 text fo) in
              0 < p \<and> p < 1 \<and> snd (calculate_speaker_probability text fo) = max p (1 - p)))
   \<and> (segments (analyze_transcript grade name rd) \<noteq> []
        \<longrightarrow> 1 / 2 \<le> confidence_score (analyze_transcript grade name rd))
   \<and> (segments_v2 (analyze_transcript_v2 grade name rd) \<noteq> []
        \<longrightarrow> 1 / 2 \<le> confidence_score_v2 (analyze_transcript_v2 grade name rd))"
proof -
  have 1: "1 / 2 \<le> snd (classify_speaker grade text) \<and> snd (classify_speaker grade text) < 1"
    by (rule classify_speaker_bounds)
  have 2: "any_search student_markers text \<or> any_search ai_markers text
        \<longrightarrow> snd (classify_speaker grade text) = 0.95"
  proof (cases "any_search student_markers text")
    case True
    then show ?thesis by (simp add: classify_speaker_student_marker)
  next
    case False
    then show ?thesis by (auto simp: classify_speaker_ai_marker)
  qed
  have 3: "blank text \<longrightarrow> snd (classify_speaker grade text) = 0.5"
    by (simp add: classify_speaker_def)
  have 4: "\<not> blank text \<and> \<not> any_search student_markers text \<and> \<not> any_search ai_markers text
        \<longrightarrow> (let p = sigmoid (content_score grade text) in
              0 < p \<and> p < 1 \<and> snd (classify_speaker grade text) = max p (1 - p))"
    using sigmoid_bounds [of "content_score grade text"]
    by (simp add: classify_speaker_content decide_conf Let_def)
  have 5: "1 / 2 \<le> snd (calculate_speaker_probability text fo)
     \<and> snd (calculate_speaker_probability text fo) < 1"
    by (rule calculate_speaker_probability_bounds)
  have 6: "any_search explicit_ai_markers text \<or> any_search explicit_student_markers text
        \<longrightarrow> snd (calculate_speaker_probability text fo) = 0.95"
    by (simp add: calculate_speaker_probability_def)
  have 7: "blank text
        \<longrightarrow> snd (calculate_speaker_probability text (extract_features grade text)) = 0.5"
    by (simp add: calculate_speaker_probability_blank)
  have 8: "\<not> any_search explicit_ai_markers text \<and> \<not> any_search explicit_student_markers text
        \<longrightarrow> (let p = sigmoid (content_score_v2 text fo) in
              0 < p \<and> p < 1 \<and> snd (calculate_speaker_probability text fo) = max p (1 - p))"
    using sigmoid_bounds [of "content_score_v2 text fo"]
    by (simp add: calculate_speaker_probability_def decide_conf Let_def)
  have 9: "segments (analyze_transcript grade name rd) \<noteq> []
        \<longrightarrow> 1 / 2 \<le> confidence_score (analyze_transcript grade name rd)"
    using confidence_score_ge by blast
  have 10: "segments_v2 (analyze_transcript_v2 grade name rd) \<noteq> []
        \<longrightarrow> 1 / 2 \<le> confidence_score_v2 (analyze_transcript_v2 grade name rd)"
    using confidence_score_v2_ge by blast
  from 1 2 3 4 5 6 7 8 9 10 show ?thesis by blast
qed

theorem confidence_range_witness:
  "snd (classify_speaker (\<lambda>t. None) tagged_question) = 0.95
   \<and> snd (classify_speaker (\<lambda>t. None) ''   '') = 0.5
   \<and> confidence_score (analyze_transcript (\<lambda>t. None) ''t.txt'' (Inr scenario)) = 0.9
   \<and> 1 / 2 \<le> confidence_score (analyze_transcript (\<lambda>t. None) ''t.txt'' (Inr scenario))"
proof -
  have m: "any_search ai_markers tagged_question" by code_simp
  have b: "blank ''   ''" by code_simp
  have c: "confidence_score (analyze_transcript (\<lambda>t. None) ''t.txt'' (Inr scenario)) = 0.9"
    by code_simp
  have s: "segments (analyze_transcript (\<lambda>t. None) ''t.txt'' (Inr scenario)) \<noteq> []"
    by code_simp
  from m confidence_range [of "\<lambda>t. None" tagged_question]
  have 1: "snd (classify_speaker (\<lambda>t. None) tagged_question) = 0.95" by blast
  from b confidence_range [of "\<lambda>t. None" "''   ''"]
  have 2: "snd (classify_speaker (\<lambda>t. None) ''   '') = 0.5" by blast
  from s confidence_range [of "\<lambda>t. None" _ _ "''t.txt''" "Inr scenario"]
  have 3: "1 / 2 \<le> confidence_score (analyze_transcript (\<lambda>t. None) ''t.txt'' (Inr scenario))"
    by blast
  from 1 2 3 c show ?thesis by blast
qed

text \<open>
  C10. When a line that is not blank carries a marker whose role is the role of the open
  segment, each of the three segmenters appends the line as it is, marker prefix
  included, and changes nothing else; the text of a flushed segment is the join of its
  chunk and its word count is computed from that text, so the words of the prefix are
  counted. The stripped line is used in one place only: as the first line of the chunk
  that a marker of another role opens.
\<close>

theorem same_role_marker_appends:
  "(\<not> blank line \<and> detect student_markers ai_markers line = (Some r, c)
      \<and> current_speaker st = Some r
      \<longrightarrow> seg_step grade (i, line) st = st\<lparr>current_chunk := current_chunk st @ [line]\<rparr>)
   \<and> (\<not> blank line \<and> detect explicit_student_markers explicit_ai_markers line = (Some r, c)
      \<and> current_speaker st2 = Some r
      \<longrightarrow> marker_step grade (i, line) st2 = st2\<lparr>current_chunk := current_chunk st2 @ [line]\<rparr>)
   \<and> (\<not> blank line \<and> detect_orig line = (Some r, c) \<and> current_speaker st = Some r
      \<longrightarrow> seg_step_orig (i, line) st = st\<lparr>current_chunk := current_chunk st @ [line]\<rparr>)
   \<and> (\<forall>seg. flush grade sgs chunk spk a b = sgs @ [seg]
      \<longrightarrow> seg_text seg = join_nl chunk \<and> word_count seg = count_words (join_nl chunk))
   \<and> (\<forall>seg. flush_orig sgs chunk spk a b = sgs @ [seg]
      \<longrightarrow> seg_text seg = join_nl chunk \<and> word_count seg = count_words_orig (join_nl chunk))
   \<and> text_v2 (create_segment grade chunk spk a b) = join_nl chunk
   \<and> word_count_v2 (create_segment grade chunk spk a b)
       = feature_word_count (extract_features grade (join_nl chunk))
   \<and> (current_chunk (seg_step grade (i, line) st) = current_chunk st
      \<or> current_chunk (seg_step grade (i, line) st) = current_chunk st @ [line]
      \<or> (\<exists>r c. detect student_markers ai_markers line = (Some r, c)
            \<and> current_speaker st \<noteq> Some r
            \<and> current_speaker (seg_step grade (i, line) st) = Some r
            \<and> start_line (seg_step grade (i, line) st) = int i
            \<and> current_chunk (seg_step grade (i, line) st) = (if c \<noteq> [] then [c] else [])))
   \<and> (current_chunk (marker_step grade (i, line) st2) = current_chunk st2
      \<or> current_chunk (marker_step grade (i, line) st2) = current_chunk st2 @ [line]
      \<or> (\<exists>r c. detect explicit_student_markers explicit_ai_markers line = (Some r, c)
            \<and> current_speaker st2 \<noteq> Some r
            \<and> current_speaker (marker_step grade (i, line) st2) = Some r
            \<and> start_line (marker_step grade (i, line) st2) = int i
            \<and> current_chunk (marker_step grade (i, line) st2) = (if c \<noteq> [] then [c] else [])))
   \<and> (current_chunk (seg_step_orig (i, line) st) = current_chunk st
      \<or> current_chunk (seg_step_orig (i, line) st) = current_chunk st @ [line]
      \<or> (\<exists>r c. detect_orig line = (Some r, c)
            \<and> current_speaker st \<noteq> Some r
            \<and> current_speaker (seg_step_orig (i, line) st) = Some r
            \<and> start_line (seg_step_orig (i, line) st) = int i
            \<and> current_chunk (seg_step_orig (i, line) st) = (if c \<noteq> [] then [c] else [])))"
proof -
  have 1: "\<not> blank line \<and> detect student_markers ai_markers line = (Some r, c)
      \<and> current_speaker st = Some r
      \<longrightarrow> seg_step grade (i, line) st = st\<lparr>current_chunk := current_chunk st @ [line]\<rparr>"
    by (simp add: seg_step_def Let_def)
  have 2: "\<not> blank line \<and> detect explicit_student_markers explicit_ai_markers line = (Some r, c)
      \<and> current_speaker st2 = Some r
      \<longrightarrow> marker_step grade (i, line) st2 = st2\<lparr>current_chunk := current_chunk st2 @ [line]\<rparr>"
    by (simp add: marker_step_def Let_def)
  have 3: "\<not> blank line \<and> detect_orig line = (Some r, c) \<and> current_speaker st = Some r
      \<longrightarrow> seg_step_orig (i, line) st = st\<lparr>current_chunk := current_chunk st @ [line]\<rparr>"
    by (simp add: seg_step_orig_def Let_def)
  have 4: "\<forall>seg. flush grade sgs chunk spk a b = sgs @ [seg]
      \<longrightarrow> seg_text seg = join_nl chunk \<and> word_count seg = count_words (join_nl chunk)"
    using flush_cases [of grade sgs chunk spk a b] by auto
  have 5: "\<forall>seg. flush_orig sgs chunk spk a b = sgs @ [seg]
      \<longrightarrow> seg_text seg = join_nl chunk \<and> word_count seg = count_words_orig (join_nl chunk)"
    using flush_orig_cases [of sgs chunk spk a b] by auto
  have 6: "text_v2 (create_segment grade chunk spk a b) = join_nl chunk
     \<and> word_count_v2 (create_segment grade chunk spk a b)
       = feature_word_count (extract_features grade (join_nl chunk))"
    by (simp add: create_segment_fields)
  from 1 2 3 4 5 6 seg_step_chunk [of grade i line st] marker_step_chunk [of grade i line st2]
    seg_step_orig_chunk [of i line st]
  show ?thesis by blast
qed

theorem same_role_marker_appends_witness:
  "seg_step (\<lambda>t. None) (1, ''Student: there'') open_student
     = open_student\<lparr>current_chunk := [''hi'', ''Student: there'']\<rparr>
   \<and> map (\<lambda>s. (seg_text s, word_count s)) (segment_transcript (\<lambda>t. None) repeated_marker)
     = [(''hi'' @ [newline] @ ''Student: there'', 3)]
   \<and> count_words ''hi'' + count_words ''there'' = 2"
proof -
  have h: "\<not> blank ''Student: there''
     \<and> detect student_markers ai_markers ''Student: there'' = (Some Student, ''there'')
     \<and> current_speaker open_student = Some Student"
    by code_simp
  have c: "current_chunk open_student @ [''Student: there''] = [''hi'', ''Student: there'']"
    by (simp add: open_student_def)
  have e: "map (\<lambda>s. (seg_text s, word_count s)) (segment_transcript (\<lambda>t. None) repeated_marker)
     = [(''hi'' @ [newline] @ ''Student: there'', 3)]
   \<and> count_words ''hi'' + count_words ''there'' = 2"
    by code_simp
  from h same_role_marker_appends [of "''Student: there''" Student "''there''" open_student
      "\<lambda>t. None" 1]
  have "seg_step (\<lambda>t. None) (1, ''Student: there'') open_student
     = open_student\<lparr>current_chunk := current_chunk open_student @ [''Student: there'']\<rparr>"
    by simp
  with c e show ?thesis by simp
qed

end
